theory Spec2Isabelle
  imports Complex_Main
begin

section \<open>Data model of \<open>backend/app.py\<close>\<close>

text \<open>
  The backend is one Flask handler, \<open>analyze\<close>, and the helpers it calls. Everything the
  handler touches outside its own locals is made explicit here:
  \<^item> \<open>image\<close> is the pixel buffer of a numpy array; arrays live in a heap (a list of buffers,
    an address is an index), because \<open>cv2.rectangle\<close> and \<open>cv2.putText\<close> draw in place and
    \<open>ndarray.copy\<close> allocates;
  \<^item> the libraries (OpenCV, the YOLO model, Supabase, uuid, the clock, the process
    environment) are the fields of the record \<open>env\<close>;
  \<^item> the globals \<open>supabase\<close> and \<open>model\<close>, the local file system, the storage bucket, the
    \<open>violations\<close> table and the video handles are the fields of the record \<open>world\<close>;
  \<^item> a Python exception is a value of \<open>exn\<close>, and a computation that may raise returns
    \<open>exn + 'a\<close> together with the world it leaves behind.
\<close>

type_synonym bytes = "nat list"
type_synonym image = "nat list"
type_synonym addr = nat
type_synonym heap = "image list"
type_synonym box = "rat \<times> rat \<times> rat \<times> rat"
type_synonym colour = "int \<times> int \<times> int"
type_synonym point = "int \<times> int"

datatype exn =
    RuntimeError string
  | AssertionError string
  | AttributeError string
  | IndexError string
  | KeyError string
  | FileNotFoundError string
  | CvError string
  | LibraryError string

fun str_exn :: "exn \<Rightarrow> string" where
  "str_exn (RuntimeError m) = m"
| "str_exn (AssertionError m) = m"
| "str_exn (AttributeError m) = m"
| "str_exn (IndexError m) = m"
| "str_exn (KeyError m) = m"
| "str_exn (FileNotFoundError m) = m"
| "str_exn (CvError m) = m"
| "str_exn (LibraryError m) = m"

text \<open>\<open>results.boxes\<close> of one YOLO call: \<open>xyxy\<close>, \<open>cls\<close> and \<open>conf\<close>, or \<open>None\<close>.\<close>

record yolo_boxes =
  bx_xyxy :: "box list"
  bx_cls :: "rat list"
  bx_conf :: "rat list"

record yolo_result =
  res_boxes :: "yolo_boxes option"
  res_names :: "int \<Rightarrow> string option"

text \<open>What \<open>cv2.VideoCapture\<close> finds in a readable container.\<close>

record video =
  v_width :: rat
  v_height :: rat
  v_fps :: rat
  v_frames :: "image list"

record capture =
  cap_opened :: bool
  cap_width :: rat
  cap_height :: rat
  cap_fps :: rat
  cap_frames :: "image list"

record writer =
  wr_path :: string
  wr_fps :: rat
  wr_size :: "int \<times> int"
  wr_frames :: "image list"
  wr_opened :: bool

record client =
  cl_url :: string
  cl_key :: string

record violation_record =
  vr_filename :: string
  vr_violation_type :: string
  vr_timestamp :: string
  vr_file_url :: string

text \<open>The answer of \<open>storage.upload\<close>: it raises, or returns a dict whose \<open>error\<close> entry is
  read with \<open>res.get('error')\<close>.\<close>

datatype upload_result = UploadRaises exn | UploadReturns "string option"

text \<open>The answer of \<open>insert(data).execute()\<close>: it raises, or returns an object whose
  \<open>error\<close> attribute is read with \<open>getattr(res, 'error', None)\<close>.\<close>

datatype insert_result = InsertRaises exn | InsertReturns "string option"

record env =
  environ :: "string \<Rightarrow> string option"
  results_dir :: string
  uuid4_hex :: "nat \<Rightarrow> string"
  utcnow_iso :: "nat \<Rightarrow> string"
  load_yolo :: "string \<Rightarrow> exn + string"
  yolo_call :: "string \<Rightarrow> image option \<Rightarrow> exn + yolo_result"
  fmt_conf :: "rat \<Rightarrow> string"
  cv_imdecode :: "bytes \<Rightarrow> image option"
  cv_rectangle :: "image \<Rightarrow> point \<Rightarrow> point \<Rightarrow> colour \<Rightarrow> int \<Rightarrow> image"
  cv_getTextSize :: "string \<Rightarrow> int \<Rightarrow> rat \<Rightarrow> int \<Rightarrow> (int \<times> int) \<times> int"
  cv_putText :: "image \<Rightarrow> string \<Rightarrow> point \<Rightarrow> int \<Rightarrow> rat \<Rightarrow> colour \<Rightarrow> int \<Rightarrow> image"
  cv_jpg :: "image \<Rightarrow> bytes"
  b64encode :: "bytes \<Rightarrow> string"
  cv_probe :: "bytes \<Rightarrow> video option"
  cv_mp4 :: "rat \<Rightarrow> int \<times> int \<Rightarrow> image list \<Rightarrow> bytes"
  cv_write_error :: "image \<Rightarrow> exn option"
  create_client :: "string \<Rightarrow> string \<Rightarrow> exn + client"
  storage_upload :: "client \<Rightarrow> string \<Rightarrow> string \<Rightarrow> bytes \<Rightarrow> string \<Rightarrow> upload_result"
  get_public_url :: "client \<Rightarrow> string \<Rightarrow> string \<Rightarrow> string"
  table_insert :: "client \<Rightarrow> violation_record \<Rightarrow> insert_result"

record world =
  supabase :: "client option"
  model :: "string option"
  arrays :: heap
  files :: "string \<Rightarrow> bytes option"
  bucket_objects :: "string \<times> string \<Rightarrow> (bytes \<times> string) option"
  violations :: "violation_record list"
  captures :: "capture list"
  writers :: "writer list"
  uuid_count :: nat
  clock :: nat

section \<open>Python and library primitives\<close>

text \<open>\<open>int(x)\<close> on a float truncates toward zero.\<close>

definition py_int :: "rat \<Rightarrow> int" where
  "py_int r = (if 0 \<le> r then \<lfloor>r\<rfloor> else \<lceil>r\<rceil>)"

fun startswith :: "string \<Rightarrow> string \<Rightarrow> bool" where
  "startswith s [] = True"
| "startswith [] (p # ps) = False"
| "startswith (c # cs) (p # ps) = (c = p \<and> startswith cs ps)"

definition endswith :: "string \<Rightarrow> string \<Rightarrow> bool" where
  "endswith s p = startswith (rev s) (rev p)"

definition lower_char :: "char \<Rightarrow> char" where
  "lower_char c =
     (let n = of_char c :: nat in if 65 \<le> n \<and> n \<le> 90 then char_of (n + 32) else c)"

definition py_lower :: "string \<Rightarrow> string" where
  "py_lower s = map lower_char s"

text \<open>\<open>os.path.join\<close> on two components (posixpath).\<close>

definition path_join :: "string \<Rightarrow> string \<Rightarrow> string" where
  "path_join a p =
     (if startswith p ''/'' then p
      else if a = [] \<or> endswith a ''/'' then a @ p
      else a @ ''/'' @ p)"

text \<open>\<open>uuid.uuid4().hex\<close>: the next identifier of the generator.\<close>

definition uuid4 :: "env \<Rightarrow> world \<Rightarrow> string \<times> world" where
  "uuid4 e w = (uuid4_hex e (uuid_count w), w\<lparr>uuid_count := Suc (uuid_count w)\<rparr>)"

text \<open>A new numpy array: its address is the next free index of the heap.\<close>

definition new_array :: "image \<Rightarrow> heap \<Rightarrow> addr \<times> heap" where
  "new_array img h = (length h, h @ [img])"

section \<open>\<open>draw_boxes_on_image\<close>\<close>

text \<open>
  The body of the \<open>for i, box in enumerate(boxes)\<close> loop draws on the array at address
  \<open>a\<close> in place; \<open>labels[i]\<close> raises \<open>IndexError\<close> when the label list is shorter.
\<close>

fun draw_loop :: "env \<Rightarrow> addr \<Rightarrow> nat \<Rightarrow> box list \<Rightarrow> string list \<Rightarrow> heap \<Rightarrow> (exn + unit) \<times> heap" where
  "draw_loop e a i [] labels h = (Inr (), h)"
| "draw_loop e a i (b # bs) labels h =
     (case b of (bx1, by1, bx2, by2) \<Rightarrow>
        let x1 = py_int bx1; y1 = py_int by1; x2 = py_int bx2; y2 = py_int by2;
            h1 = h[a := cv_rectangle e (h ! a) (x1, y1) (x2, y2) (0, 0, 255) 2]
        in if i < length labels then
             let label = labels ! i;
                 (tw, th) = fst (cv_getTextSize e label 0 (1 / 2) 1);
                 h2 = h1[a := cv_rectangle e (h1 ! a) (x1, y1 - th - 6) (x1 + tw + 6, y1) (0, 0, 255) (- 1)];
                 h3 = h2[a := cv_putText e (h2 ! a) label (x1 + 3, y1 - 4) 0 (1 / 2) (255, 255, 255) 1]
             in draw_loop e a (Suc i) bs labels h3
           else (Inl (IndexError ''list index out of range''), h1))"

text \<open>\<open>image_bgr\<close> is an address, or \<open>None\<close> (what \<open>cv2.imdecode\<close> returns for bytes it cannot
  decode); \<open>None.copy()\<close> raises \<open>AttributeError\<close>.\<close>

definition draw_boxes_on_image ::
    "env \<Rightarrow> addr option \<Rightarrow> box list \<Rightarrow> string list \<Rightarrow> heap \<Rightarrow> (exn + addr) \<times> heap" where
  "draw_boxes_on_image e image_bgr boxes labels h =
     (case image_bgr of
        None \<Rightarrow> (Inl (AttributeError ''NoneType object has no attribute copy''), h)
      | Some a \<Rightarrow>
          (case new_array (h ! a) h of (annotated, h0) \<Rightarrow>
             (case draw_loop e annotated 0 boxes labels h0 of
                (Inl x, h1) \<Rightarrow> (Inl x, h1)
              | (Inr u, h1) \<Rightarrow> (Inr annotated, h1))))"

text \<open>The unpacking of one YOLO result, as both call sites do it.\<close>

definition boxes_of :: "yolo_result \<Rightarrow> box list" where
  "boxes_of r = (case res_boxes r of None \<Rightarrow> [] | Some b \<Rightarrow> bx_xyxy b)"

definition cls_ids_of :: "yolo_result \<Rightarrow> int list" where
  "cls_ids_of r = (case res_boxes r of None \<Rightarrow> [] | Some b \<Rightarrow> map py_int (bx_cls b))"

definition confs_of :: "yolo_result \<Rightarrow> rat list" where
  "confs_of r = (case res_boxes r of None \<Rightarrow> [] | Some b \<Rightarrow> bx_conf b)"

text \<open>\<open>[f"{names[c]} {conf:.2f}" for c, conf in zip(cls_ids, confs)]\<close>; \<open>names[c]\<close> raises
  \<open>KeyError\<close> for a class the model does not name.\<close>

fun make_labels :: "env \<Rightarrow> (int \<Rightarrow> string option) \<Rightarrow> (int \<times> rat) list \<Rightarrow> exn + string list" where
  "make_labels e names [] = Inr []"
| "make_labels e names ((c, conf) # rest) =
     (case names c of
        None \<Rightarrow> Inl (KeyError ''names'')
      | Some n \<Rightarrow>
          (case make_labels e names rest of
             Inl x \<Rightarrow> Inl x
           | Inr ls \<Rightarrow> Inr ((n @ '' '' @ fmt_conf e conf) # ls)))"

section \<open>\<open>run_yolo_on_image_bytes\<close> and the small helpers\<close>

text \<open>Truthiness of an optional string: \<open>None\<close> and \<open>""\<close> are false.\<close>

definition truthy :: "string option \<Rightarrow> bool" where
  "truthy v = (case v of None \<Rightarrow> False | Some s \<Rightarrow> s \<noteq> [])"

text \<open>\<open>os.getenv(name, default)\<close>.\<close>

definition getenv :: "env \<Rightarrow> string \<Rightarrow> string option \<Rightarrow> string option" where
  "getenv e name dflt = (case environ e name of None \<Rightarrow> dflt | Some v \<Rightarrow> Some v)"

definition get_env :: "env \<Rightarrow> string \<Rightarrow> bool \<Rightarrow> string option \<Rightarrow> exn + string option" where
  "get_env e name required dflt =
     (let value = getenv e name dflt
      in if required \<and> \<not> truthy value
         then Inl (RuntimeError (''Missing required environment variable: '' @ name))
         else Inr value)"

definition init_supabase :: "env \<Rightarrow> exn + client" where
  "init_supabase e =
     (case get_env e ''SUPABASE_URL'' True None of
        Inl x \<Rightarrow> Inl x
      | Inr url \<Rightarrow>
          (case get_env e ''SUPABASE_SERVICE_ROLE_KEY'' True None of
             Inl x \<Rightarrow> Inl x
           | Inr key \<Rightarrow> create_client e (the url) (the key)))"

definition init_model :: "env \<Rightarrow> exn + string" where
  "init_model e = load_yolo e (the (getenv e ''YOLO_WEIGHTS'' (Some ''yolov8n.pt'')))"

text \<open>The module body: the model is loaded at import, and a failure leaves \<open>model = None\<close>.\<close>

definition startup :: "env \<Rightarrow> world" where
  "startup e =
     \<lparr>supabase = None,
      model = (case init_model e of Inl x \<Rightarrow> None | Inr m \<Rightarrow> Some m),
      arrays = [], files = (\<lambda>p. None), bucket_objects = (\<lambda>k. None), violations = [],
      captures = [], writers = [], uuid_count = 0, clock = 0\<rparr>"

text \<open>The tuple \<open>run_yolo_on_image_bytes\<close> returns.\<close>

record yolo_out =
  yo_img :: "addr option"
  yo_annotated :: "addr option"
  yo_boxes :: "box list"
  yo_cls_ids :: "int list"
  yo_confs :: "rat list"
  yo_names :: "int \<Rightarrow> string option"

definition run_yolo_on_image_bytes :: "env \<Rightarrow> bytes \<Rightarrow> world \<Rightarrow> (exn + yolo_out) \<times> world" where
  "run_yolo_on_image_bytes e file_bytes w =
     (case model w of
        None \<Rightarrow> (Inl (AssertionError ''Model not initialized''), w)
      | Some m \<Rightarrow>
          (case (case cv_imdecode e file_bytes of
                   None \<Rightarrow> (None, arrays w)
                 | Some px \<Rightarrow> (case new_array px (arrays w) of (a, h) \<Rightarrow> (Some a, h))) of
             (img_bgr, h0) \<Rightarrow>
               (case yolo_call e m (map_option (\<lambda>a. h0 ! a) img_bgr) of
                  Inl x \<Rightarrow> (Inl x, w\<lparr>arrays := h0\<rparr>)
                | Inr results \<Rightarrow>
                    let boxes = boxes_of results; cls_ids = cls_ids_of results;
                        confs = confs_of results; names = res_names results
                    in (case make_labels e names (zip cls_ids confs) of
                          Inl x \<Rightarrow> (Inl x, w\<lparr>arrays := h0\<rparr>)
                        | Inr labels \<Rightarrow>
                            (case (if length boxes > 0
                                   then (case draw_boxes_on_image e img_bgr boxes labels h0 of
                                           (Inl x, h1) \<Rightarrow> (Inl x, h1)
                                         | (Inr a, h1) \<Rightarrow> (Inr (Some a), h1))
                                   else (Inr img_bgr, h0)) of
                               (Inl x, h1) \<Rightarrow> (Inl x, w\<lparr>arrays := h1\<rparr>)
                             | (Inr annotated, h1) \<Rightarrow>
                                 (Inr \<lparr>yo_img = img_bgr, yo_annotated = annotated, yo_boxes = boxes,
                                       yo_cls_ids = cls_ids, yo_confs = confs, yo_names = names\<rparr>,
                                  w\<lparr>arrays := h1\<rparr>))))))"

text \<open>\<open>save_image\<close> is only called with a \<open>.jpg\<close> path; \<open>cv2.imwrite\<close> raises on \<open>None\<close>.\<close>

definition save_image :: "env \<Rightarrow> addr option \<Rightarrow> string \<Rightarrow> world \<Rightarrow> (exn + unit) \<times> world" where
  "save_image e image_bgr out_path w =
     (case image_bgr of
        None \<Rightarrow> (Inl (CvError ''imwrite: empty image''), w)
      | Some a \<Rightarrow> (Inr (), w\<lparr>files := (files w)(out_path \<mapsto> cv_jpg e (arrays w ! a))\<rparr>))"

definition encode_image_to_base64 :: "env \<Rightarrow> addr option \<Rightarrow> world \<Rightarrow> exn + string" where
  "encode_image_to_base64 e image_bgr w =
     (case image_bgr of
        None \<Rightarrow> Inl (CvError ''imencode: empty image'')
      | Some a \<Rightarrow> Inr (b64encode e (cv_jpg e (arrays w ! a))))"

definition content_type_of :: "string \<Rightarrow> string" where
  "content_type_of file_path =
     (let l = py_lower file_path
      in if endswith l ''.jpg'' \<or> endswith l ''.jpeg'' \<or> endswith l ''.png''
         then ''image/jpeg'' else ''video/mp4'')"

text \<open>
  \<open>upload_to_supabase_storage\<close>. The bucket keeps the object when the call returns without
  a truthy \<open>error\<close> entry (\<open>upsert\<close> overwrites); a call that raises or reports an error
  stores nothing.
\<close>

definition upload_to_supabase_storage ::
    "env \<Rightarrow> client \<Rightarrow> string \<Rightarrow> string \<Rightarrow> string \<Rightarrow> world \<Rightarrow> (exn + string) \<times> world" where
  "upload_to_supabase_storage e cl bucket file_path dest_path w =
     (case files w file_path of
        None \<Rightarrow> (Inl (FileNotFoundError file_path), w)
      | Some f \<Rightarrow>
          (case storage_upload e cl bucket dest_path f (content_type_of file_path) of
             UploadRaises x \<Rightarrow> (Inl x, w)
           | UploadReturns err \<Rightarrow>
               if truthy err then (Inl (RuntimeError (the err)), w)
               else (Inr (get_public_url e cl bucket dest_path),
                     w\<lparr>bucket_objects :=
                         (bucket_objects w)((bucket, dest_path) \<mapsto> (f, content_type_of file_path))\<rparr>)))"

text \<open>
  \<open>insert_violation_record\<close>. The table keeps the row when \<open>execute()\<close> returns without a
  truthy \<open>error\<close> attribute; a call that raises or reports an error inserts nothing.
\<close>

definition insert_violation_record ::
    "env \<Rightarrow> client \<Rightarrow> string \<Rightarrow> string \<Rightarrow> string \<Rightarrow> world \<Rightarrow> (exn + violation_record) \<times> world" where
  "insert_violation_record e cl filename vtype url w =
     (let data = \<lparr>vr_filename = filename, vr_violation_type = vtype,
                  vr_timestamp = utcnow_iso e (clock w), vr_file_url = url\<rparr>;
          w1 = w\<lparr>clock := Suc (clock w)\<rparr>
      in case table_insert e cl data of
           InsertRaises x \<Rightarrow> (Inl x, w1)
         | InsertReturns err \<Rightarrow>
             if truthy err then (Inl (RuntimeError (the err)), w1)
             else (Inr data, w1\<lparr>violations := violations w1 @ [data]\<rparr>))"

section \<open>The video handles\<close>

text \<open>\<open>cv2.VideoCapture(path)\<close>: the object exists even when the file is not a readable
  video; \<open>isOpened()\<close> tells.\<close>

definition VideoCapture :: "env \<Rightarrow> string \<Rightarrow> world \<Rightarrow> nat \<times> world" where
  "VideoCapture e path w =
     (let c = (case Option.bind (files w path) (cv_probe e) of
                 None \<Rightarrow> \<lparr>cap_opened = False, cap_width = 0, cap_height = 0, cap_fps = 0,
                           cap_frames = []\<rparr>
               | Some v \<Rightarrow> \<lparr>cap_opened = True, cap_width = v_width v, cap_height = v_height v,
                             cap_fps = v_fps v, cap_frames = v_frames v\<rparr>)
      in (length (captures w), w\<lparr>captures := captures w @ [c]\<rparr>))"

definition cap_release :: "nat \<Rightarrow> world \<Rightarrow> world" where
  "cap_release cid w = w\<lparr>captures := (captures w)[cid := (captures w ! cid)\<lparr>cap_opened := False\<rparr>]\<rparr>"

text \<open>\<open>cv2.VideoWriter(path, fourcc, fps, size)\<close> creates the output file.\<close>

definition VideoWriter :: "env \<Rightarrow> string \<Rightarrow> rat \<Rightarrow> int \<times> int \<Rightarrow> world \<Rightarrow> nat \<times> world" where
  "VideoWriter e path fps frame_size w =
     (length (writers w),
      w\<lparr>writers := writers w @
           [\<lparr>wr_path = path, wr_fps = fps, wr_size = frame_size, wr_frames = [],
             wr_opened = True\<rparr>],
        files := (files w)(path \<mapsto> cv_mp4 e fps frame_size [])\<rparr>)"

definition writer_write :: "env \<Rightarrow> nat \<Rightarrow> addr \<Rightarrow> world \<Rightarrow> (exn + unit) \<times> world" where
  "writer_write e wid a w =
     (case cv_write_error e (arrays w ! a) of
        Some x \<Rightarrow> (Inl x, w)
      | None \<Rightarrow>
          (Inr (), w\<lparr>writers := (writers w)
                      [wid := (writers w ! wid)\<lparr>wr_frames := wr_frames (writers w ! wid) @ [arrays w ! a]\<rparr>]\<rparr>))"

definition writer_release :: "env \<Rightarrow> nat \<Rightarrow> world \<Rightarrow> world" where
  "writer_release e wid w =
     (let wr = writers w ! wid
      in w\<lparr>writers := (writers w)[wid := wr\<lparr>wr_opened := False\<rparr>],
           files := (files w)(wr_path wr \<mapsto> cv_mp4 e (wr_fps wr) (wr_size wr) (wr_frames wr))\<rparr>)"

text \<open>\<open>cap.get(cv2.CAP_PROP_FPS) or 24.0\<close>: a float is false exactly when it is zero.\<close>

definition output_fps :: "rat \<Rightarrow> rat" where
  "output_fps reported = (if reported = 0 then 24 else reported)"

section \<open>The frame loop of the video path\<close>

text \<open>
  Lines 199 to 208, the loop body after a successful \<open>cap.read()\<close>: detect, label,
  annotate, accumulate, write. The result is the new value of \<open>any_detections\<close>, or the
  exception raised.
\<close>

definition loop_body ::
    "env \<Rightarrow> string \<Rightarrow> nat \<Rightarrow> addr \<Rightarrow> bool \<Rightarrow> world \<Rightarrow> (exn + bool) \<times> world" where
  "loop_body e m wid frame any_detections w =
     (case yolo_call e m (Some (arrays w ! frame)) of
        Inl x \<Rightarrow> (Inl x, w)
      | Inr res \<Rightarrow>
          let boxes = boxes_of res; cls_ids = cls_ids_of res; confs = confs_of res;
              names = res_names res
          in (case make_labels e names (zip cls_ids confs) of
                Inl x \<Rightarrow> (Inl x, w)
              | Inr labels \<Rightarrow>
                  (case (if length boxes > 0
                         then draw_boxes_on_image e (Some frame) boxes labels (arrays w)
                         else (Inr frame, arrays w)) of
                     (Inl x, h1) \<Rightarrow> (Inl x, w\<lparr>arrays := h1\<rparr>)
                   | (Inr annotated, h1) \<Rightarrow>
                       (case writer_write e wid annotated (w\<lparr>arrays := h1\<rparr>) of
                          (Inl x, w1) \<Rightarrow> (Inl x, w1)
                        | (Inr u, w1) \<Rightarrow>
                            (Inr (if length boxes > 0 then True else any_detections), w1)))))"

text \<open>
  \<open>while True: ret, frame = cap.read(); if not ret: break; ...\<close>. The argument \<open>fs\<close> is the
  list of frames the capture \<open>cid\<close> has not yet delivered; each \<open>cap.read()\<close> takes its head,
  allocates the array \<open>frame\<close> and leaves the tail in the capture. The result is
  \<open>any_detections\<close> when the stream ends, or the exception that left the loop.
\<close>

fun video_loop ::
    "env \<Rightarrow> string \<Rightarrow> nat \<Rightarrow> nat \<Rightarrow> image list \<Rightarrow> bool \<Rightarrow> world \<Rightarrow> (exn + bool) \<times> world" where
  "video_loop e m cid wid [] any_detections w = (Inr any_detections, w)"
| "video_loop e m cid wid (f # fs) any_detections w =
     (case new_array f (arrays w) of (frame, h0) \<Rightarrow>
        (case loop_body e m wid frame any_detections
                (w\<lparr>captures := (captures w)[cid := (captures w ! cid)\<lparr>cap_frames := fs\<rparr>],
                   arrays := h0\<rparr>) of
           (Inl x, w1) \<Rightarrow> (Inl x, w1)
         | (Inr any', w1) \<Rightarrow> video_loop e m cid wid fs any' w1))"

section \<open>The handler \<open>analyze\<close>\<close>

record upload =
  up_filename :: "string option"
  up_content :: bytes
  up_mimetype :: string

text \<open>\<open>request.files\<close> holds the upload under the key \<open>file\<close>, or does not.\<close>

type_synonym request = "upload option"

datatype body =
    ErrorBody (err_msg: string)
  | ImageBody (violation: bool) (violation_type: string) (timestamp: string) (file_url: string)
      (image_base64: string)
  | VideoBody (violation: bool) (violation_type: string) (timestamp: string) (file_url: string)

type_synonym response = "body \<times> nat"

text \<open>Lines 144 to 148: the two globals are initialised on first use.\<close>

definition ensure_services :: "env \<Rightarrow> world \<Rightarrow> (exn + unit) \<times> world" where
  "ensure_services e w =
     (case (case supabase w of
              None \<Rightarrow> (case init_supabase e of
                          Inl x \<Rightarrow> (Inl x, w)
                        | Inr c \<Rightarrow> (Inr (), w\<lparr>supabase := Some c\<rparr>))
            | Some c \<Rightarrow> (Inr (), w)) of
        (Inl x, w1) \<Rightarrow> (Inl x, w1)
      | (Inr u, w1) \<Rightarrow>
          (case model w1 of
             None \<Rightarrow> (case init_model e of
                         Inl x \<Rightarrow> (Inl x, w1)
                       | Inr m \<Rightarrow> (Inr (), w1\<lparr>model := Some m\<rparr>))
           | Some m \<Rightarrow> (Inr (), w1)))"

definition label_of :: "bool \<Rightarrow> string" where
  "label_of detected = (if detected then ''Violation Detected'' else ''No Violation'')"

text \<open>Lines 152 to 174, the branch \<open>if is_image\<close>.\<close>

definition analyze_image ::
    "env \<Rightarrow> client \<Rightarrow> string \<Rightarrow> string \<Rightarrow> bytes \<Rightarrow> world \<Rightarrow> (exn + response) \<times> world" where
  "analyze_image e cl bucket_name filename content w =
     (case run_yolo_on_image_bytes e content w of
        (Inl x, w1) \<Rightarrow> (Inl x, w1)
      | (Inr r, w1) \<Rightarrow>
          let had_detections = (length (yo_boxes r) > 0) in
          (case uuid4 e w1 of (out_id, w2) \<Rightarrow>
             let temp_out_path = path_join (results_dir e) (out_id @ ''_annotated.jpg'') in
             (case save_image e (if had_detections then yo_annotated r else yo_img r) temp_out_path w2 of
                (Inl x, w3) \<Rightarrow> (Inl x, w3)
              | (Inr u, w3) \<Rightarrow>
                  let dest_path = ''images/'' @ out_id @ ''.jpg'' in
                  (case upload_to_supabase_storage e cl bucket_name temp_out_path dest_path w3 of
                     (Inl x, w4) \<Rightarrow> (Inl x, w4)
                   | (Inr public_url, w4) \<Rightarrow>
                       let vtype = label_of had_detections in
                       (case insert_violation_record e cl filename vtype public_url w4 of
                          (Inl x, w5) \<Rightarrow> (Inl x, w5)
                        | (Inr rec, w5) \<Rightarrow>
                            (case encode_image_to_base64 e
                                    (if had_detections then yo_annotated r else yo_img r) w5 of
                               Inl x \<Rightarrow> (Inl x, w5)
                             | Inr img_b64 \<Rightarrow>
                                 (Inr (ImageBody had_detections vtype (vr_timestamp rec) public_url
                                         img_b64, 200), w5)))))))"

text \<open>Lines 176 to 224, the video path.\<close>

definition analyze_video ::
    "env \<Rightarrow> client \<Rightarrow> string \<Rightarrow> string \<Rightarrow> string \<Rightarrow> bytes \<Rightarrow> world \<Rightarrow> (exn + response) \<times> world" where
  "analyze_video e cl m bucket_name filename content w =
     (case uuid4 e w of (in_id, w1) \<Rightarrow>
        let temp_in_path = path_join (results_dir e) (in_id @ ''_'' @ filename);
            w2 = w1\<lparr>files := (files w1)(temp_in_path \<mapsto> content)\<rparr>
        in (case VideoCapture e temp_in_path w2 of (cap, w3) \<Rightarrow>
              if \<not> cap_opened (captures w3 ! cap)
              then (Inr (ErrorBody ''Failed to read video'', 400), w3)
              else
                let width = py_int (cap_width (captures w3 ! cap));
                    height = py_int (cap_height (captures w3 ! cap));
                    fps = output_fps (cap_fps (captures w3 ! cap))
                in (case uuid4 e w3 of (out_id, w4) \<Rightarrow>
                      let temp_out_path = path_join (results_dir e) (out_id @ ''_annotated.mp4'') in
                      (case VideoWriter e temp_out_path fps (width, height) w4 of (wr, w5) \<Rightarrow>
                         (case video_loop e m cap wr (cap_frames (captures w5 ! cap)) False w5 of
                            (Inl x, w6) \<Rightarrow> (Inl x, w6)
                          | (Inr any_detections, w6) \<Rightarrow>
                              let w7 = writer_release e wr (cap_release cap w6);
                                  dest_path = ''videos/'' @ out_id @ ''.mp4''
                              in (case upload_to_supabase_storage e cl bucket_name temp_out_path
                                         dest_path w7 of
                                    (Inl x, w8) \<Rightarrow> (Inl x, w8)
                                  | (Inr public_url, w8) \<Rightarrow>
                                      let vtype = label_of any_detections in
                                      (case insert_violation_record e cl filename vtype public_url w8 of
                                         (Inl x, w9) \<Rightarrow> (Inl x, w9)
                                       | (Inr rec, w9) \<Rightarrow>
                                           (Inr (VideoBody any_detections vtype (vr_timestamp rec)
                                                   public_url, 200), w9))))))))"

text \<open>The body of the \<open>try\<close> block: a response that is returned, or the exception raised.\<close>

definition analyze_try :: "env \<Rightarrow> request \<Rightarrow> world \<Rightarrow> (exn + response) \<times> world" where
  "analyze_try e req w =
     (case req of
        None \<Rightarrow> (Inr (ErrorBody ''No file provided'', 400), w)
      | Some file \<Rightarrow>
          (case (if truthy (up_filename file) then (the (up_filename file), w)
                 else (case uuid4 e w of (u, w') \<Rightarrow> (''upload_'' @ u, w'))) of
             (filename, w1) \<Rightarrow>
               let content = up_content file; mimetype = up_mimetype file;
                   is_image = startswith mimetype ''image/'';
                   is_video = startswith mimetype ''video/''
               in if \<not> (is_image \<or> is_video)
                  then (Inr (ErrorBody ''Unsupported file type'', 400), w1)
                  else
                    (case ensure_services e w1 of
                       (Inl x, w2) \<Rightarrow> (Inl x, w2)
                     | (Inr u, w2) \<Rightarrow>
                         let bucket_name = the (getenv e ''SUPABASE_BUCKET'' (Some ''violations'')) in
                         if is_image
                         then analyze_image e (the (supabase w2)) bucket_name filename content w2
                         else analyze_video e (the (supabase w2)) (the (model w2)) bucket_name
                                filename content w2)))"

text \<open>\<open>except Exception as e: return jsonify({'error': str(e)}), 500\<close>.\<close>

definition analyze :: "env \<Rightarrow> request \<Rightarrow> world \<Rightarrow> response \<times> world" where
  "analyze e req w =
     (case analyze_try e req w of
        (Inl x, w') \<Rightarrow> ((ErrorBody (str_exn x), 500), w')
      | (Inr r, w') \<Rightarrow> (r, w'))"

section \<open>Notions of the specification\<close>

text \<open>The Detection Set of a frame: the boxes the detector returns for it (none when the
  detector raises).\<close>

definition detection_set :: "env \<Rightarrow> string \<Rightarrow> image \<Rightarrow> box list" where
  "detection_set e m f = (case yolo_call e m (Some f) of Inl x \<Rightarrow> [] | Inr res \<Rightarrow> boxes_of res)"

text \<open>The pixels of the annotated copy of a frame: \<open>draw_boxes_on_image\<close> run on a heap that
  holds only that frame, with the boxes and labels of its detection.\<close>

definition drawn :: "env \<Rightarrow> string \<Rightarrow> image \<Rightarrow> image" where
  "drawn e m f =
     (case yolo_call e m (Some f) of
        Inl x \<Rightarrow> f
      | Inr res \<Rightarrow>
          (case make_labels e (res_names res) (zip (cls_ids_of res) (confs_of res)) of
             Inl x \<Rightarrow> f
           | Inr labels \<Rightarrow> snd (draw_boxes_on_image e (Some 0) (boxes_of res) labels [f]) ! 1))"

definition output_frame :: "env \<Rightarrow> string \<Rightarrow> image \<Rightarrow> image" where
  "output_frame e m f = (if detection_set e m f = [] then f else drawn e m f)"

text \<open>The world in which the frame loop starts, when the container is readable: the
  upload is on disk, the capture and the writer are open (lines 177 to 192).\<close>

definition opened_world :: "env \<Rightarrow> string \<Rightarrow> bytes \<Rightarrow> video \<Rightarrow> world \<Rightarrow> world" where
  "opened_world e filename content v w =
     (let temp_in_path = path_join (results_dir e) (uuid4_hex e (uuid_count w) @ ''_'' @ filename);
          w2 = (snd (uuid4 e w))\<lparr>files := (files w)(temp_in_path \<mapsto> content)\<rparr>;
          w4 = snd (uuid4 e (snd (VideoCapture e temp_in_path w2)))
      in snd (VideoWriter e
                (path_join (results_dir e) (uuid4_hex e (Suc (uuid_count w)) @ ''_annotated.mp4''))
                (output_fps (v_fps v)) (py_int (v_width v), py_int (v_height v)) w4))"

section \<open>A small concrete environment\<close>

text \<open>
  A toy instance of the libraries, used to run the handler on concrete requests. An image
  is its bytes; the detector reports one box of class 0 exactly on images whose first
  pixel is not 0, and raises on an image whose first pixel is 9. A video file is a sign
  byte and a rate byte followed by one-pixel frames.
\<close>

definition demo_detect :: "string \<Rightarrow> image option \<Rightarrow> exn + yolo_result" where
  "demo_detect m img =
     (case img of
        None \<Rightarrow> Inl (LibraryError ''no image'')
      | Some px \<Rightarrow>
          if px = [] \<or> hd px = 9 then Inl (LibraryError ''inference failed'')
          else if hd px = 0 then Inr \<lparr>res_boxes = None, res_names = (\<lambda>c. None)\<rparr>
          else Inr \<lparr>res_boxes = Some \<lparr>bx_xyxy = [(0, 0, 1, 1)], bx_cls = [0], bx_conf = [9 / 10]\<rparr>,
                    res_names = (\<lambda>c. if c = 0 then Some ''car'' else None)\<rparr>)"

definition demo_probe :: "bytes \<Rightarrow> video option" where
  "demo_probe b =
     (case b of
        neg # rate # frames \<Rightarrow>
          Some \<lparr>v_width = 1, v_height = 1,
                v_fps = (if neg = 1 then - of_nat rate else of_nat rate),
                v_frames = map (\<lambda>x. [x]) frames\<rparr>
      | _ \<Rightarrow> None)"

definition demo_env :: env where
  "demo_env =
     \<lparr>environ = (\<lambda>n. if n = ''SUPABASE_URL'' then Some ''u''
                      else if n = ''SUPABASE_SERVICE_ROLE_KEY'' then Some ''k'' else None),
      results_dir = ''r'',
      uuid4_hex = (\<lambda>n. replicate (Suc n) CHR ''a''),
      utcnow_iso = (\<lambda>n. ''t''),
      load_yolo = (\<lambda>wts. Inr wts),
      yolo_call = demo_detect,
      fmt_conf = (\<lambda>c. ''0.90''),
      cv_imdecode = (\<lambda>b. if b = [] then None else Some b),
      cv_rectangle = (\<lambda>img p q c t. map (\<lambda>x. 255) img),
      cv_getTextSize = (\<lambda>s f sc t. ((8, 4), 2)),
      cv_putText = (\<lambda>img s p f sc c t. img),
      cv_jpg = (\<lambda>img. img),
      b64encode = map (\<lambda>n. if n = 0 then CHR ''0'' else CHR ''1''),
      cv_probe = demo_probe,
      cv_mp4 = (\<lambda>fps sz frames. concat frames),
      cv_write_error = (\<lambda>img. None),
      create_client = (\<lambda>u k. Inr \<lparr>cl_url = u, cl_key = k\<rparr>),
      storage_upload = (\<lambda>cl b d f ct. UploadReturns None),
      get_public_url = (\<lambda>cl b d. b @ ''/'' @ d),
      table_insert = (\<lambda>cl r. InsertReturns None)\<rparr>"

text \<open>The same environment with a \<open>violations\<close> table that rejects every row.\<close>

definition demo_env_insert_fails :: env where
  "demo_env_insert_fails = demo_env\<lparr>table_insert := (\<lambda>cl r. InsertReturns (Some ''insert failed''))\<rparr>"

definition demo_image :: "nat list \<Rightarrow> upload" where
  "demo_image px = \<lparr>up_filename = Some ''a.jpg'', up_content = px, up_mimetype = ''image/jpeg''\<rparr>"

definition demo_video :: "nat list \<Rightarrow> upload" where
  "demo_video b = \<lparr>up_filename = Some ''v.mp4'', up_content = b, up_mimetype = ''video/mp4''\<rparr>"

definition demo_text :: upload where
  "demo_text = \<lparr>up_filename = Some ''n.txt'', up_content = [1], up_mimetype = ''text/plain''\<rparr>"

text \<open>The world after start-up once the storage client exists.\<close>

definition demo_ready :: world where
  "demo_ready = (startup demo_env)\<lparr>supabase := Some \<lparr>cl_url = ''u'', cl_key = ''k''\<rparr>\<rparr>"

section \<open>Lemmas about the helpers\<close>

lemma draw_loop_length: "length (snd (draw_loop e a i bs ls h)) = length h"
  by (induction bs arbitrary: i h) (auto simp: Let_def split: prod.splits)

lemma draw_loop_take: "n \<le> a \<Longrightarrow> take n (snd (draw_loop e a i bs ls h)) = take n h"
  by (induction bs arbitrary: i h) (auto simp: Let_def split: prod.splits)

lemma draw_loop_rel:
  "a < length h \<Longrightarrow> a' < length h' \<Longrightarrow> h ! a = h' ! a' \<Longrightarrow>
   fst (draw_loop e a i bs ls h) = fst (draw_loop e a' i bs ls h') \<and>
   snd (draw_loop e a i bs ls h) ! a = snd (draw_loop e a' i bs ls h') ! a'"
proof (induction bs arbitrary: i h h')
  case Nil
  then show ?case by simp
next
  case (Cons b bs)
  obtain x1 y1 x2 y2 where b: "b = (x1, y1, x2, y2)" by (cases b) auto
  show ?case
  proof (cases "i < length ls")
    case True
    then show ?thesis using Cons.prems b
      by (simp add: Let_def split: prod.splits) (intro allI impI, rule Cons.IH, simp_all)
  next
    case False
    then show ?thesis using Cons.prems b by (simp add: Let_def)
  qed
qed

lemma draw_boxes_take:
  "take (length h) (snd (draw_boxes_on_image e img boxes labels h)) = h"
  by (cases "draw_loop e (length h) 0 boxes labels (h @ [h ! the img])")
     (use draw_loop_take[of "length h" "length h" e 0 boxes labels "h @ [h ! the img]"] in
      \<open>auto simp: draw_boxes_on_image_def new_array_def split: option.splits sum.splits\<close>)

lemma draw_boxes_length:
  "length (snd (draw_boxes_on_image e (Some a) boxes labels h)) = Suc (length h)"
  by (cases "draw_loop e (length h) 0 boxes labels (h @ [h ! a])")
     (use draw_loop_length[of e "length h" 0 boxes labels "h @ [h ! a]"] in
      \<open>auto simp: draw_boxes_on_image_def new_array_def split: option.splits sum.splits\<close>)

lemma draw_boxes_addr:
  "draw_boxes_on_image e (Some a) boxes labels h = (Inr a', h') \<Longrightarrow> a' = length h"
  by (auto simp: draw_boxes_on_image_def new_array_def split: option.splits sum.splits prod.splits)


lemma draw_boxes_content:
  assumes "a < length h" "draw_boxes_on_image e (Some a) bs ls h = (Inr a', h')"
  shows "h' ! a' = snd (draw_boxes_on_image e (Some 0) bs ls [h ! a]) ! 1"
proof -
  let ?d = "draw_loop e (length h) 0 bs ls (h @ [h ! a])"
  let ?s = "draw_loop e 1 0 bs ls ([h ! a] @ [h ! a])"
  have rel: "fst ?d = fst ?s \<and> snd ?d ! length h = snd ?s ! 1"
    by (rule draw_loop_rel) simp_all
  obtain r1 h1 where d: "?d = (r1, h1)" by (cases ?d)
  obtain r2 h2 where s: "?s = (r2, h2)" by (cases ?s)
  from assms(2) d have "r1 = Inr ()" "a' = length h" "h' = h1"
    by (auto simp: draw_boxes_on_image_def new_array_def split: sum.splits)
  moreover from s have "snd (draw_boxes_on_image e (Some 0) bs ls [h ! a]) = h2"
    by (auto simp: draw_boxes_on_image_def new_array_def split: sum.splits)
  ultimately show ?thesis using rel d s by simp
qed

lemma writer_write_Inr:
  "writer_write e wid a w = (Inr u, w') \<Longrightarrow>
   w' = w\<lparr>writers := (writers w)[wid := (writers w ! wid)
            \<lparr>wr_frames := wr_frames (writers w ! wid) @ [arrays w ! a]\<rparr>]\<rparr>"
  by (auto simp: writer_write_def split: option.splits)

lemma writer_write_Inl: "writer_write e wid a w = (Inl x, w') \<Longrightarrow> w' = w"
  by (auto simp: writer_write_def split: option.splits)

lemma loop_body_Inr:
  assumes "loop_body e m wid frame any w = (Inr any', w')" "frame < length (arrays w)"
  shows "any' = (any \<or> detection_set e m (arrays w ! frame) \<noteq> []) \<and>
         w' = w\<lparr>arrays := arrays w',
                 writers := (writers w)[wid := (writers w ! wid)
                   \<lparr>wr_frames := wr_frames (writers w ! wid) @ [output_frame e m (arrays w ! frame)]\<rparr>]\<rparr>
         \<and> take (length (arrays w)) (arrays w') = arrays w"
proof -
  let ?f = "arrays w ! frame"
  from assms(1) obtain res where res: "yolo_call e m (Some ?f) = Inr res"
    by (auto simp: loop_body_def split: sum.splits)
  from assms(1) res obtain labels where
    labels: "make_labels e (res_names res) (zip (cls_ids_of res) (confs_of res)) = Inr labels"
    by (auto simp: loop_body_def Let_def split: sum.splits)
  have ds: "detection_set e m ?f = boxes_of res" using res by (simp add: detection_set_def)
  show ?thesis
  proof (cases "boxes_of res = []")
    case True
    then show ?thesis using assms res labels ds
      by (auto simp: loop_body_def Let_def output_frame_def split: sum.splits prod.splits
               dest!: writer_write_Inr)
  next
    case False
    from assms(1) res labels False obtain a h1 where
      dr: "draw_boxes_on_image e (Some frame) (boxes_of res) labels (arrays w) = (Inr a, h1)"
      by (auto simp: loop_body_def Let_def split: sum.splits prod.splits)
    have c: "h1 ! a = drawn e m ?f"
      using draw_boxes_content[OF assms(2) dr] res labels by (simp add: drawn_def)
    have t: "take (length (arrays w)) h1 = arrays w"
      using draw_boxes_take[of "arrays w" e "Some frame" "boxes_of res" labels] dr by simp
    from assms(1) res labels False dr obtain u where
      "writer_write e wid a (w\<lparr>arrays := h1\<rparr>) = (Inr u, w')" "any' = True"
      by (auto simp: loop_body_def Let_def split: sum.splits prod.splits)
    then show ?thesis using c t ds False
      by (auto simp: output_frame_def dest!: writer_write_Inr)
  qed
qed

lemma loop_body_Inl:
  assumes "loop_body e m wid frame any w = (Inl x, w')"
  shows "w' = w\<lparr>arrays := arrays w'\<rparr> \<and> take (length (arrays w)) (arrays w') = arrays w"
proof -
  have "\<And>bs ls r h. draw_boxes_on_image e (Some frame) bs ls (arrays w) = (r, h)
          \<Longrightarrow> take (length (arrays w)) h = arrays w"
    using draw_boxes_take[of "arrays w" e "Some frame"] by (metis snd_conv)
  then show ?thesis using assms
    by (auto simp: loop_body_def Let_def split: sum.splits prod.splits if_splits
             dest!: writer_write_Inl)
qed


lemma video_loop_Inr:
  "video_loop e m cid wid fs any w = (Inr any', w') \<Longrightarrow> wid < length (writers w) \<Longrightarrow>
   any' = (any \<or> (\<exists>f\<in>set fs. detection_set e m f \<noteq> [])) \<and>
   w' = w\<lparr>arrays := arrays w', captures := captures w',
          writers := (writers w)[wid := (writers w ! wid)
            \<lparr>wr_frames := wr_frames (writers w ! wid) @ map (output_frame e m) fs\<rparr>]\<rparr>"
proof (induction fs arbitrary: any w)
  case Nil
  then show ?case by simp
next
  case (Cons f fs)
  let ?w0 = "w\<lparr>captures := (captures w)[cid := (captures w ! cid)\<lparr>cap_frames := fs\<rparr>],
               arrays := arrays w @ [f]\<rparr>"
  from Cons.prems(1) obtain any1 w1 where
    body: "loop_body e m wid (length (arrays w)) any ?w0 = (Inr any1, w1)" and
    rest: "video_loop e m cid wid fs any1 w1 = (Inr any', w')"
    by (auto simp: new_array_def split: prod.splits sum.splits)
  have b: "any1 = (any \<or> detection_set e m f \<noteq> [])"
    "w1 = ?w0\<lparr>arrays := arrays w1,
          writers := (writers w)[wid := (writers w ! wid)
            \<lparr>wr_frames := wr_frames (writers w ! wid) @ [output_frame e m f]\<rparr>]\<rparr>"
    using loop_body_Inr[OF body] by simp_all
  have len: "wid < length (writers w1)"
    using Cons.prems(2) by (subst b(2)) simp
  have wr1: "writers w1 = (writers w)[wid := (writers w ! wid)
            \<lparr>wr_frames := wr_frames (writers w ! wid) @ [output_frame e m f]\<rparr>]"
    by (subst b(2)) simp
  from Cons.IH[OF rest len] have
    r: "any' = (any1 \<or> (\<exists>f\<in>set fs. detection_set e m f \<noteq> []))"
       "w' = w1\<lparr>arrays := arrays w', captures := captures w',
          writers := (writers w1)[wid := (writers w1 ! wid)
            \<lparr>wr_frames := wr_frames (writers w1 ! wid) @ map (output_frame e m) fs\<rparr>]\<rparr>"
    by simp_all
  have "any' = (any \<or> (\<exists>f\<in>set (f # fs). detection_set e m f \<noteq> []))"
    using r(1) b(1) by auto
  moreover have "w' = w\<lparr>arrays := arrays w', captures := captures w',
          writers := (writers w)[wid := (writers w ! wid)
            \<lparr>wr_frames := wr_frames (writers w ! wid) @ map (output_frame e m) (f # fs)\<rparr>]\<rparr>"
    by (subst r(2), subst b(2)) (simp add: wr1 Cons.prems(2))
  ultimately show ?case by blast
qed

lemma video_loop_Inl:
  "video_loop e m cid wid fs any w = (Inl x, w') \<Longrightarrow> wid < length (writers w) \<Longrightarrow>
   \<exists>k<length fs.
     w' = w\<lparr>arrays := arrays w', captures := captures w',
            writers := (writers w)[wid := (writers w ! wid)
              \<lparr>wr_frames := wr_frames (writers w ! wid) @ map (output_frame e m) (take k fs)\<rparr>]\<rparr>"
proof (induction fs arbitrary: any w)
  case Nil
  then show ?case by simp
next
  case (Cons f fs)
  let ?w0 = "w\<lparr>captures := (captures w)[cid := (captures w ! cid)\<lparr>cap_frames := fs\<rparr>],
               arrays := arrays w @ [f]\<rparr>"
  obtain r1 w1 where body: "loop_body e m wid (length (arrays w)) any ?w0 = (r1, w1)"
    by (cases "loop_body e m wid (length (arrays w)) any ?w0")
  show ?case
  proof (cases r1)
    case (Inl y)
    with body Cons.prems(1) have "w' = w1" by (simp add: new_array_def)
    moreover from loop_body_Inl[OF body[unfolded Inl]] have "w1 = ?w0\<lparr>arrays := arrays w1\<rparr>"
      by simp
    ultimately have e0: "w' = ?w0\<lparr>arrays := arrays w'\<rparr>" by simp
    have c0: "captures w' = captures ?w0" by (subst e0) simp
    have fin: "w' = w\<lparr>arrays := arrays w', captures := captures w',
            writers := (writers w)[wid := (writers w ! wid)
              \<lparr>wr_frames := wr_frames (writers w ! wid) @ map (output_frame e m) (take 0 (f # fs))\<rparr>]\<rparr>"
      by (subst e0) (simp add: c0)
    show ?thesis by (rule exI[of _ 0], rule conjI, simp, rule fin)
  next
    case (Inr any1)
    with body Cons.prems(1) have rest: "video_loop e m cid wid fs any1 w1 = (Inl x, w')"
      by (simp add: new_array_def)
    have b: "w1 = ?w0\<lparr>arrays := arrays w1,
          writers := (writers w)[wid := (writers w ! wid)
            \<lparr>wr_frames := wr_frames (writers w ! wid) @ [output_frame e m f]\<rparr>]\<rparr>"
      using loop_body_Inr[OF body[unfolded Inr]] by simp
    have len: "wid < length (writers w1)"
      using Cons.prems(2) by (subst b) simp
    have wr1: "writers w1 = (writers w)[wid := (writers w ! wid)
            \<lparr>wr_frames := wr_frames (writers w ! wid) @ [output_frame e m f]\<rparr>]"
      by (subst b) simp
    from Cons.IH[OF rest len] obtain k where k: "k < length fs"
       "w' = w1\<lparr>arrays := arrays w', captures := captures w',
          writers := (writers w1)[wid := (writers w1 ! wid)
            \<lparr>wr_frames := wr_frames (writers w1 ! wid) @ map (output_frame e m) (take k fs)\<rparr>]\<rparr>"
      by blast
    have fin: "w' = w\<lparr>arrays := arrays w', captures := captures w',
          writers := (writers w)[wid := (writers w ! wid)
            \<lparr>wr_frames := wr_frames (writers w ! wid) @ map (output_frame e m) (take (Suc k) (f # fs))\<rparr>]\<rparr>"
      by (subst k(2), subst b) (simp add: wr1 Cons.prems(2))
    show ?thesis by (rule exI[of _ "Suc k"], rule conjI, simp add: k(1), rule fin)
  qed
qed

lemma upload_Inl:
  "upload_to_supabase_storage e cl b fp dp w = (Inl x, w') \<Longrightarrow> w' = w"
  by (auto simp: upload_to_supabase_storage_def split: option.splits upload_result.splits if_splits)

lemma upload_Inr:
  "upload_to_supabase_storage e cl b fp dp w = (Inr url, w') \<Longrightarrow>
   url = get_public_url e cl b dp \<and>
   (\<exists>f. files w fp = Some f \<and>
        w' = w\<lparr>bucket_objects := (bucket_objects w)((b, dp) \<mapsto> (f, content_type_of fp))\<rparr>)"
  by (auto simp: upload_to_supabase_storage_def split: option.splits upload_result.splits if_splits)

lemma insert_Inl:
  "insert_violation_record e cl fn vt url w = (Inl x, w') \<Longrightarrow> w' = w\<lparr>clock := Suc (clock w)\<rparr>"
  by (auto simp: insert_violation_record_def Let_def split: insert_result.splits if_splits)

lemma insert_Inr:
  "insert_violation_record e cl fn vt url w = (Inr rec, w') \<Longrightarrow>
   rec = \<lparr>vr_filename = fn, vr_violation_type = vt, vr_timestamp = utcnow_iso e (clock w),
          vr_file_url = url\<rparr> \<and>
   w' = w\<lparr>clock := Suc (clock w), violations := violations w @ [rec]\<rparr>"
  by (auto simp: insert_violation_record_def Let_def split: insert_result.splits if_splits)

lemma opened_world_fields:
  assumes "cv_probe e content = Some v"
  shows "writers (opened_world e filename content v w) = writers w @
         [\<lparr>wr_path = path_join (results_dir e) (uuid4_hex e (Suc (uuid_count w)) @ ''_annotated.mp4''),
           wr_fps = output_fps (v_fps v), wr_size = (py_int (v_width v), py_int (v_height v)),
           wr_frames = [], wr_opened = True\<rparr>]"
    and "captures (opened_world e filename content v w) = captures w @
         [\<lparr>cap_opened = True, cap_width = v_width v, cap_height = v_height v, cap_fps = v_fps v,
           cap_frames = v_frames v\<rparr>]"
    and "violations (opened_world e filename content v w) = violations w"
    and "bucket_objects (opened_world e filename content v w) = bucket_objects w"
    and "supabase (opened_world e filename content v w) = supabase w"
    and "model (opened_world e filename content v w) = model w"
    and "arrays (opened_world e filename content v w) = arrays w"
    and "clock (opened_world e filename content v w) = clock w"
  using assms
  by (simp_all add: opened_world_def uuid4_def VideoCapture_def VideoWriter_def Let_def)

lemma analyze_video_unreadable:
  "cv_probe e content = None \<Longrightarrow>
   fst (analyze_video e cl m bucket filename content w) = Inr (ErrorBody ''Failed to read video'', 400)"
  by (simp add: analyze_video_def uuid4_def VideoCapture_def Let_def)

lemma analyze_video_readable:
  assumes "cv_probe e content = Some v"
  shows "analyze_video e cl m bucket filename content w =
     (case video_loop e m (length (captures w)) (length (writers w)) (v_frames v) False
             (opened_world e filename content v w) of
        (Inl x, w6) \<Rightarrow> (Inl x, w6)
      | (Inr any_detections, w6) \<Rightarrow>
          (case upload_to_supabase_storage e cl bucket
                  (path_join (results_dir e) (uuid4_hex e (Suc (uuid_count w)) @ ''_annotated.mp4''))
                  (''videos/'' @ uuid4_hex e (Suc (uuid_count w)) @ ''.mp4'')
                  (writer_release e (length (writers w)) (cap_release (length (captures w)) w6)) of
             (Inl x, w8) \<Rightarrow> (Inl x, w8)
           | (Inr public_url, w8) \<Rightarrow>
               (case insert_violation_record e cl filename (label_of any_detections) public_url w8 of
                  (Inl x, w9) \<Rightarrow> (Inl x, w9)
                | (Inr rec, w9) \<Rightarrow>
                    (Inr (VideoBody any_detections (label_of any_detections) (vr_timestamp rec)
                            public_url, 200), w9))))"
  using assms
  by (simp add: analyze_video_def uuid4_def VideoCapture_def VideoWriter_def Let_def
      opened_world_def split: prod.split sum.split)

lemma analyze_video_success:
  assumes ok: "analyze_video e cl m bucket filename content w = (Inr (VideoBody vd vt ts url, st), w')"
  shows "\<exists>v. cv_probe e content = Some v \<and>
           vd = (\<exists>f\<in>set (v_frames v). detection_set e m f \<noteq> []) \<and>
           vt = label_of vd \<and> st = 200 \<and> model w' = model w \<and>
           writers w' = writers w @
             [\<lparr>wr_path = path_join (results_dir e) (uuid4_hex e (Suc (uuid_count w)) @ ''_annotated.mp4''),
               wr_fps = output_fps (v_fps v), wr_size = (py_int (v_width v), py_int (v_height v)),
               wr_frames = map (output_frame e m) (v_frames v), wr_opened = False\<rparr>] \<and>
           violations w' = violations w @
             [\<lparr>vr_filename = filename, vr_violation_type = vt, vr_timestamp = ts, vr_file_url = url\<rparr>]"
proof (cases "cv_probe e content")
  case None
  from analyze_video_unreadable[OF None, of cl m bucket filename w] ok show ?thesis by simp
next
  case (Some v)
  let ?w5 = "opened_world e filename content v w"
  let ?wid = "length (writers w)"
  let ?cid = "length (captures w)"
  note f = opened_world_fields[OF Some, of filename w]
  obtain r6 w6 where loop: "video_loop e m ?cid ?wid (v_frames v) False ?w5 = (r6, w6)"
    by (cases "video_loop e m ?cid ?wid (v_frames v) False ?w5")
  from ok loop obtain any where r6: "r6 = Inr any"
    by (cases r6) (auto simp: analyze_video_readable[OF Some])
  have wid: "?wid < length (writers ?w5)" by (simp add: f)
  from video_loop_Inr[OF loop[unfolded r6] wid] have
    any: "any = (\<exists>f\<in>set (v_frames v). detection_set e m f \<noteq> [])" and
    w6: "w6 = ?w5\<lparr>arrays := arrays w6, captures := captures w6,
          writers := (writers ?w5)[?wid := (writers ?w5 ! ?wid)
            \<lparr>wr_frames := wr_frames (writers ?w5 ! ?wid) @ map (output_frame e m) (v_frames v)\<rparr>]\<rparr>"
    by simp_all
  have wr6: "writers w6 = writers w @
             [\<lparr>wr_path = path_join (results_dir e) (uuid4_hex e (Suc (uuid_count w)) @ ''_annotated.mp4''),
               wr_fps = output_fps (v_fps v), wr_size = (py_int (v_width v), py_int (v_height v)),
               wr_frames = map (output_frame e m) (v_frames v), wr_opened = True\<rparr>]"
    by (subst w6) (simp add: f)
  have vi6: "violations w6 = violations w" by (subst w6) (simp add: f)
  have mo6: "model w6 = model w" by (subst w6) (simp add: f)
  let ?w7 = "writer_release e ?wid (cap_release ?cid w6)"
  have wr7: "writers ?w7 = writers w @
             [\<lparr>wr_path = path_join (results_dir e) (uuid4_hex e (Suc (uuid_count w)) @ ''_annotated.mp4''),
               wr_fps = output_fps (v_fps v), wr_size = (py_int (v_width v), py_int (v_height v)),
               wr_frames = map (output_frame e m) (v_frames v), wr_opened = False\<rparr>]"
    by (simp add: writer_release_def cap_release_def Let_def wr6)
  have vi7: "violations ?w7 = violations w"
    by (simp add: writer_release_def cap_release_def Let_def vi6)
  have mo7: "model ?w7 = model w"
    by (simp add: writer_release_def cap_release_def Let_def mo6)
  obtain r8 w8 where up: "upload_to_supabase_storage e cl bucket
        (path_join (results_dir e) (uuid4_hex e (Suc (uuid_count w)) @ ''_annotated.mp4''))
        (''videos/'' @ uuid4_hex e (Suc (uuid_count w)) @ ''.mp4'') ?w7 = (r8, w8)"
    by (cases "upload_to_supabase_storage e cl bucket
        (path_join (results_dir e) (uuid4_hex e (Suc (uuid_count w)) @ ''_annotated.mp4''))
        (''videos/'' @ uuid4_hex e (Suc (uuid_count w)) @ ''.mp4'') ?w7")
  from ok loop r6 up obtain pu where r8: "r8 = Inr pu"
    by (cases r8) (auto simp: analyze_video_readable[OF Some])
  from upload_Inr[OF up[unfolded r8]] obtain bo where w8: "w8 = ?w7\<lparr>bucket_objects := bo\<rparr>"
    by blast
  obtain r9 w9 where ins: "insert_violation_record e cl filename (label_of any) pu w8 = (r9, w9)"
    by (cases "insert_violation_record e cl filename (label_of any) pu w8")
  from ok loop r6 up r8 ins obtain rec where r9: "r9 = Inr rec"
    by (cases r9) (auto simp: analyze_video_readable[OF Some])
  from ok loop r6 up r8 ins r9 have res: "vd = any" "vt = label_of any" "ts = vr_timestamp rec"
      "url = pu" "st = 200" "w' = w9"
    by (auto simp: analyze_video_readable[OF Some])
  from insert_Inr[OF ins[unfolded r9]] have
    rec: "rec = \<lparr>vr_filename = filename, vr_violation_type = label_of any,
             vr_timestamp = utcnow_iso e (clock w8), vr_file_url = pu\<rparr>" and
    w9: "w9 = w8\<lparr>clock := Suc (clock w8), violations := violations w8 @ [rec]\<rparr>"
    by simp_all
  have "writers w' = writers ?w7" unfolding res(6) by (subst w9, subst w8) simp
  moreover have "violations w' = violations ?w7 @ [rec]" unfolding res(6)
    by (subst w9, subst w8) simp
  moreover have "model w' = model ?w7" unfolding res(6) by (subst w9, subst w8) simp
  ultimately show ?thesis
    using Some any res rec wr7 vi7 mo7 by (intro exI[of _ v]) simp
qed

lemma run_yolo_decoded:
  assumes run: "run_yolo_on_image_bytes e content w = (Inr r, w')"
    and m: "model w = Some m" and px: "cv_imdecode e content = Some px"
  shows "yo_img r = Some (length (arrays w)) \<and> yo_boxes r = detection_set e m px \<and>
         arrays w' ! length (arrays w) = px \<and> w' = w\<lparr>arrays := arrays w'\<rparr> \<and>
         (yo_boxes r = [] \<longrightarrow> yo_annotated r = yo_img r \<and> arrays w' = arrays w @ [px]) \<and>
         (yo_boxes r \<noteq> [] \<longrightarrow> yo_annotated r = Some (Suc (length (arrays w))) \<and>
            arrays w' ! Suc (length (arrays w)) = drawn e m px)"
proof -
  let ?a = "length (arrays w)"
  let ?h0 = "arrays w @ [px]"
  from run m px obtain res where res: "yolo_call e m (Some px) = Inr res"
    by (auto simp: run_yolo_on_image_bytes_def new_array_def split: sum.splits)
  from run m px res obtain labels where
    labels: "make_labels e (res_names res) (zip (cls_ids_of res) (confs_of res)) = Inr labels"
    by (auto simp: run_yolo_on_image_bytes_def new_array_def Let_def split: sum.splits)
  have ds: "detection_set e m px = boxes_of res" using res by (simp add: detection_set_def)
  show ?thesis
  proof (cases "boxes_of res = []")
    case True
    then show ?thesis using run m px res labels ds
      by (auto simp: run_yolo_on_image_bytes_def new_array_def Let_def)
  next
    case False
    obtain rd h1 where dr: "draw_boxes_on_image e (Some ?a) (boxes_of res) labels ?h0 = (rd, h1)"
      by (cases "draw_boxes_on_image e (Some ?a) (boxes_of res) labels ?h0")
    from run m px res labels False dr obtain a where rd: "rd = Inr a"
      by (cases rd) (auto simp: run_yolo_on_image_bytes_def new_array_def Let_def)
    have a: "a = Suc ?a" using draw_boxes_addr[OF dr[unfolded rd]] by simp
    have c: "h1 ! a = drawn e m px"
      using draw_boxes_content[OF _ dr[unfolded rd]] res labels by (simp add: drawn_def)
    have t: "take (Suc ?a) h1 = ?h0"
      using draw_boxes_take[of ?h0 e "Some ?a" "boxes_of res" labels] dr by simp
    have o: "h1 ! ?a = px"
    proof -
      have "h1 ! ?a = take (Suc ?a) h1 ! ?a" by simp
      also have "\<dots> = px" unfolding t by simp
      finally show ?thesis .
    qed
    from run m px res labels False dr rd have
      "r = \<lparr>yo_img = Some ?a, yo_annotated = Some a, yo_boxes = boxes_of res,
            yo_cls_ids = cls_ids_of res, yo_confs = confs_of res, yo_names = res_names res\<rparr>"
      "w' = w\<lparr>arrays := h1\<rparr>"
      by (auto simp: run_yolo_on_image_bytes_def new_array_def Let_def)
    then show ?thesis using False ds a c o by simp
  qed
qed

lemma run_yolo_undecoded:
  assumes run: "run_yolo_on_image_bytes e content w = (Inr r, w')"
    and px: "cv_imdecode e content = None"
  shows "yo_img r = None \<and> yo_annotated r = None \<and> yo_boxes r = []"
  using assms
  by (auto simp: run_yolo_on_image_bytes_def draw_boxes_on_image_def Let_def
      split: option.splits sum.splits if_splits)

lemma analyze_image_success:
  assumes ok: "analyze_image e cl bucket filename content w = (Inr (ImageBody vd vt ts url b64, st), w')"
    and m: "model w = Some m"
  shows "\<exists>px. cv_imdecode e content = Some px \<and>
           vd = (detection_set e m px \<noteq> []) \<and> vt = label_of vd \<and> st = 200 \<and>
           model w' = model w \<and>
           b64 = b64encode e (cv_jpg e (output_frame e m px)) \<and>
           files w' (path_join (results_dir e) (uuid4_hex e (uuid_count w) @ ''_annotated.jpg'')) =
             Some (cv_jpg e (output_frame e m px)) \<and>
           arrays w' ! length (arrays w) = px \<and>
           (\<not> vd \<longrightarrow> arrays w' = arrays w @ [px]) \<and>
           violations w' = violations w @
             [\<lparr>vr_filename = filename, vr_violation_type = vt, vr_timestamp = ts, vr_file_url = url\<rparr>]"
proof -
  obtain rr w1 where run: "run_yolo_on_image_bytes e content w = (rr, w1)"
    by (cases "run_yolo_on_image_bytes e content w")
  from ok run obtain r where rr: "rr = Inr r"
    by (cases rr) (auto simp: analyze_image_def)
  note run = run[unfolded rr]
  let ?img = "if length (yo_boxes r) > 0 then yo_annotated r else yo_img r"
  let ?path = "path_join (results_dir e) (uuid4_hex e (uuid_count w1) @ ''_annotated.jpg'')"
  let ?w2 = "w1\<lparr>uuid_count := Suc (uuid_count w1)\<rparr>"
  obtain rs w3 where sv: "save_image e ?img ?path ?w2 = (rs, w3)"
    by (cases "save_image e ?img ?path ?w2")
  from ok run sv have rs: "rs = Inr ()"
    by (cases rs) (auto simp: analyze_image_def uuid4_def Let_def)
  from sv rs obtain a where a: "?img = Some a"
      and w3: "w3 = ?w2\<lparr>files := (files ?w2)(?path \<mapsto> cv_jpg e (arrays ?w2 ! a))\<rparr>"
    by (auto simp: save_image_def split: option.splits)
  obtain px where px: "cv_imdecode e content = Some px"
    using run_yolo_undecoded[OF run] a by (cases "cv_imdecode e content") auto
  note d = run_yolo_decoded[OF run m px]
  have w1: "w1 = w\<lparr>arrays := arrays w1\<rparr>" using d by simp
  have uc: "uuid_count w1 = uuid_count w" by (subst w1) simp
  have shown: "arrays w1 ! a = output_frame e m px"
    using a d by (auto simp: output_frame_def split: if_splits)
  let ?dest = "''images/'' @ uuid4_hex e (uuid_count w1) @ ''.jpg''"
  obtain ru w4 where up: "upload_to_supabase_storage e cl bucket ?path ?dest w3 = (ru, w4)"
    by (cases "upload_to_supabase_storage e cl bucket ?path ?dest w3")
  from ok run sv rs up obtain pu where ru: "ru = Inr pu"
    by (cases ru) (auto simp: analyze_image_def uuid4_def Let_def)
  from upload_Inr[OF up[unfolded ru]] obtain bo where w4: "w4 = w3\<lparr>bucket_objects := bo\<rparr>"
    by blast
  let ?vd = "length (yo_boxes r) > 0"
  obtain ri w5 where ins: "insert_violation_record e cl filename (label_of ?vd) pu w4 = (ri, w5)"
    by (cases "insert_violation_record e cl filename (label_of ?vd) pu w4")
  from ok run sv rs up ru ins obtain rec where ri: "ri = Inr rec"
    by (cases ri) (auto simp: analyze_image_def uuid4_def Let_def)
  from insert_Inr[OF ins[unfolded ri]] have
    rec: "rec = \<lparr>vr_filename = filename, vr_violation_type = label_of ?vd,
             vr_timestamp = utcnow_iso e (clock w4), vr_file_url = pu\<rparr>" and
    w5: "w5 = w4\<lparr>clock := Suc (clock w4), violations := violations w4 @ [rec]\<rparr>"
    by simp_all
  have ar5: "arrays w5 = arrays w1" by (subst w5, subst w4, subst w3) simp
  from ok run sv rs up ru ins ri a have res: "vd = ?vd" "vt = label_of ?vd" "ts = vr_timestamp rec"
      "url = pu" "st = 200" "w' = w5" "b64 = b64encode e (cv_jpg e (arrays w5 ! a))"
    by (auto simp: analyze_image_def uuid4_def Let_def encode_image_to_base64_def
        split: option.splits if_splits)
  have "vd = (detection_set e m px \<noteq> [])" using res(1) d by auto
  moreover have "model w' = model w" unfolding res(6)
    by (subst w5, subst w4, subst w3, subst w1) simp
  moreover have "b64 = b64encode e (cv_jpg e (output_frame e m px))"
    using res(7) ar5 shown by simp
  moreover have "files w' (path_join (results_dir e) (uuid4_hex e (uuid_count w) @ ''_annotated.jpg'')) =
             Some (cv_jpg e (output_frame e m px))"
    unfolding res(6) by (subst w5, subst w4, subst w3) (simp add: uc shown)
  moreover have "arrays w' ! length (arrays w) = px" unfolding res(6) ar5 using d by simp
  moreover have "\<not> vd \<longrightarrow> arrays w' = arrays w @ [px]" unfolding res(6) ar5 using d res(1) by simp
  moreover have "violations w' = violations w @ [rec]" unfolding res(6)
    by (subst w5, subst w4, subst w3, subst w1) simp
  ultimately show ?thesis using px res rec by (intro exI[of _ px]) simp
qed

lemma draw_boxes_None:
  "draw_boxes_on_image e None bs ls h = (r, h') \<Longrightarrow> h' = h"
  by (simp add: draw_boxes_on_image_def)

lemma run_yolo_world:
  "run_yolo_on_image_bytes e content w = (r, w') \<Longrightarrow> w' = w\<lparr>arrays := arrays w'\<rparr>"
  by (auto simp: run_yolo_on_image_bytes_def Let_def
      split: option.splits sum.splits prod.splits if_splits)

lemma save_image_world:
  "save_image e img p w = (r, w') \<Longrightarrow> w' = w\<lparr>files := files w'\<rparr>"
  by (auto simp: save_image_def split: option.splits)

lemma upload_world:
  "upload_to_supabase_storage e cl b fp dp w = (r, w') \<Longrightarrow>
   w' = w\<lparr>bucket_objects := bucket_objects w'\<rparr>"
  by (cases r) (auto dest: upload_Inl upload_Inr)

lemma analyze_image_core:
  assumes "analyze_image e cl bucket filename content w = (r, w')"
  shows "supabase w' = supabase w \<and> model w' = model w \<and>
         (violations w' = violations w \<or> (\<exists>vd vt ts url b64. r = Inr (ImageBody vd vt ts url b64, 200)))"
proof -
  obtain rr w1 where run: "run_yolo_on_image_bytes e content w = (rr, w1)"
    by (cases "run_yolo_on_image_bytes e content w")
  have w1: "w1 = w\<lparr>arrays := arrays w1\<rparr>" by (rule run_yolo_world[OF run])
  have c1: "supabase w1 = supabase w" "model w1 = model w" "violations w1 = violations w"
    by (subst w1, simp)+
  show ?thesis
  proof (cases rr)
    case (Inl x)
    with assms run c1 show ?thesis by (auto simp: analyze_image_def)
  next
    case (Inr r1)
    let ?img = "if length (yo_boxes r1) > 0 then yo_annotated r1 else yo_img r1"
    let ?path = "path_join (results_dir e) (uuid4_hex e (uuid_count w1) @ ''_annotated.jpg'')"
    let ?w2 = "w1\<lparr>uuid_count := Suc (uuid_count w1)\<rparr>"
    let ?dest = "''images/'' @ uuid4_hex e (uuid_count w1) @ ''.jpg''"
    obtain rs w3 where sv: "save_image e ?img ?path ?w2 = (rs, w3)"
      by (cases "save_image e ?img ?path ?w2")
    have w3: "w3 = ?w2\<lparr>files := files w3\<rparr>" by (rule save_image_world[OF sv])
    have c3: "supabase w3 = supabase w" "model w3 = model w" "violations w3 = violations w"
      by (subst w3, simp add: c1)+
    obtain ru w4 where up: "upload_to_supabase_storage e cl bucket ?path ?dest w3 = (ru, w4)"
      by (cases "upload_to_supabase_storage e cl bucket ?path ?dest w3")
    have w4: "w4 = w3\<lparr>bucket_objects := bucket_objects w4\<rparr>" by (rule upload_world[OF up])
    have c4: "supabase w4 = supabase w" "model w4 = model w" "violations w4 = violations w"
      by (subst w4, simp add: c3)+
    show ?thesis
    proof (cases rs)
      case (Inl x)
      with assms run Inr sv c3 show ?thesis by (auto simp: analyze_image_def uuid4_def Let_def)
    next
      case rsr: (Inr u)
      then obtain a where a: "?img = Some a" using sv by (auto simp: save_image_def split: option.splits)
      show ?thesis
      proof (cases ru)
        case (Inl x)
        with assms run Inr sv rsr up c4 show ?thesis
          by (auto simp: analyze_image_def uuid4_def Let_def)
      next
        case rur: (Inr pu)
        obtain ri w5 where ins: "insert_violation_record e cl filename
              (label_of (length (yo_boxes r1) > 0)) pu w4 = (ri, w5)"
          by (cases "insert_violation_record e cl filename (label_of (length (yo_boxes r1) > 0)) pu w4")
        show ?thesis
        proof (cases ri)
          case (Inl x)
          from insert_Inl[OF ins[unfolded Inl]] have "w5 = w4\<lparr>clock := Suc (clock w4)\<rparr>" .
          then have "supabase w5 = supabase w" "model w5 = model w" "violations w5 = violations w"
            by (simp_all add: c4)
          with assms run Inr sv rsr up rur ins Inl show ?thesis
            by (auto simp: analyze_image_def uuid4_def Let_def)
        next
          case rir: (Inr rec)
          from insert_Inr[OF ins[unfolded rir]] have
            "w5 = w4\<lparr>clock := Suc (clock w4), violations := violations w4 @ [rec]\<rparr>" by simp
          then have "supabase w5 = supabase w" "model w5 = model w" by (simp_all add: c4)
          with assms run Inr sv rsr up rur ins rir a show ?thesis
            by (auto simp: analyze_image_def uuid4_def Let_def encode_image_to_base64_def
                split: if_splits)
        qed
      qed
    qed
  qed
qed

lemma analyze_video_unreadable_world:
  "cv_probe e content = None \<Longrightarrow>
   supabase (snd (analyze_video e cl m bucket filename content w)) = supabase w \<and>
   model (snd (analyze_video e cl m bucket filename content w)) = model w \<and>
   violations (snd (analyze_video e cl m bucket filename content w)) = violations w"
  by (simp add: analyze_video_def uuid4_def VideoCapture_def Let_def)

lemma analyze_video_core:
  assumes "analyze_video e cl m bucket filename content w = (r, w')"
  shows "supabase w' = supabase w \<and> model w' = model w \<and>
         (violations w' = violations w \<or> (\<exists>vd vt ts url. r = Inr (VideoBody vd vt ts url, 200))) \<and>
         (\<forall>b st. r = Inr (b, st) \<longrightarrow> st = 200 \<or> st = 400 \<and> b = ErrorBody ''Failed to read video'')"
proof (cases "cv_probe e content")
  case None
  from analyze_video_unreadable[OF None, of cl m bucket filename w]
    analyze_video_unreadable_world[OF None, of cl m bucket filename w] assms
  show ?thesis by auto
next
  case (Some v)
  let ?w5 = "opened_world e filename content v w"
  let ?wid = "length (writers w)"
  let ?cid = "length (captures w)"
  let ?path = "path_join (results_dir e) (uuid4_hex e (Suc (uuid_count w)) @ ''_annotated.mp4'')"
  let ?dest = "''videos/'' @ uuid4_hex e (Suc (uuid_count w)) @ ''.mp4''"
  note f = opened_world_fields[OF Some, of filename w]
  note rd = analyze_video_readable[OF Some, of cl m bucket filename w]
  have wid: "?wid < length (writers ?w5)" by (simp add: f)
  obtain r6 w6 where loop: "video_loop e m ?cid ?wid (v_frames v) False ?w5 = (r6, w6)"
    by (cases "video_loop e m ?cid ?wid (v_frames v) False ?w5")
  have c6: "supabase w6 = supabase w \<and> model w6 = model w \<and> violations w6 = violations w"
  proof (cases r6)
    case (Inl x)
    from video_loop_Inl[OF loop[unfolded Inl] wid] obtain k where
      e6: "w6 = ?w5\<lparr>arrays := arrays w6, captures := captures w6,
            writers := (writers ?w5)[?wid := (writers ?w5 ! ?wid)
              \<lparr>wr_frames := wr_frames (writers ?w5 ! ?wid) @ map (output_frame e m) (take k (v_frames v))\<rparr>]\<rparr>"
      by blast
    have "supabase w6 = supabase ?w5" by (subst e6) simp
    moreover have "model w6 = model ?w5" by (subst e6) simp
    moreover have "violations w6 = violations ?w5" by (subst e6) simp
    ultimately show ?thesis by (simp add: f)
  next
    case (Inr any)
    from video_loop_Inr[OF loop[unfolded Inr] wid] have
      e6: "w6 = ?w5\<lparr>arrays := arrays w6, captures := captures w6,
            writers := (writers ?w5)[?wid := (writers ?w5 ! ?wid)
              \<lparr>wr_frames := wr_frames (writers ?w5 ! ?wid) @ map (output_frame e m) (v_frames v)\<rparr>]\<rparr>"
      by simp
    have "supabase w6 = supabase ?w5" by (subst e6) simp
    moreover have "model w6 = model ?w5" by (subst e6) simp
    moreover have "violations w6 = violations ?w5" by (subst e6) simp
    ultimately show ?thesis by (simp add: f)
  qed
  show ?thesis
  proof (cases r6)
    case (Inl x)
    with assms loop c6 show ?thesis by (auto simp: rd)
  next
    case (Inr any)
    let ?w7 = "writer_release e ?wid (cap_release ?cid w6)"
    have c7: "supabase ?w7 = supabase w" "model ?w7 = model w" "violations ?w7 = violations w"
      using c6 by (simp_all add: writer_release_def cap_release_def Let_def)
    obtain r8 w8 where up: "upload_to_supabase_storage e cl bucket ?path ?dest ?w7 = (r8, w8)"
      by (cases "upload_to_supabase_storage e cl bucket ?path ?dest ?w7")
    have w8: "w8 = ?w7\<lparr>bucket_objects := bucket_objects w8\<rparr>" by (rule upload_world[OF up])
    have c8: "supabase w8 = supabase w" "model w8 = model w" "violations w8 = violations w"
      by (subst w8, simp add: c7)+
    show ?thesis
    proof (cases r8)
      case (Inl x)
      with assms loop Inr up c8 show ?thesis by (auto simp: rd)
    next
      case r8r: (Inr pu)
      obtain r9 w9 where ins: "insert_violation_record e cl filename (label_of any) pu w8 = (r9, w9)"
        by (cases "insert_violation_record e cl filename (label_of any) pu w8")
      show ?thesis
      proof (cases r9)
        case (Inl x)
        from insert_Inl[OF ins[unfolded Inl]] have "w9 = w8\<lparr>clock := Suc (clock w8)\<rparr>" .
        then have "supabase w9 = supabase w" "model w9 = model w" "violations w9 = violations w"
          by (simp_all add: c8)
        with assms loop Inr up r8r ins Inl show ?thesis by (auto simp: rd)
      next
        case r9r: (Inr rec)
        from insert_Inr[OF ins[unfolded r9r]] have
          "w9 = w8\<lparr>clock := Suc (clock w8), violations := violations w8 @ [rec]\<rparr>" by simp
        then have "supabase w9 = supabase w" "model w9 = model w" by (simp_all add: c8)
        with assms loop Inr up r8r ins r9r show ?thesis by (auto simp: rd)
      qed
    qed
  qed
qed

lemma ensure_services_Inl:
  "ensure_services e w = (Inl x, w') \<Longrightarrow>
   w' = w\<lparr>supabase := supabase w'\<rparr> \<and> (supabase w \<noteq> None \<longrightarrow> supabase w' = supabase w)"
  by (auto simp: ensure_services_def split: option.splits sum.splits)

lemma ensure_services_Inr:
  "ensure_services e w = (Inr u, w') \<Longrightarrow>
   w' = w\<lparr>supabase := supabase w', model := model w'\<rparr> \<and>
   (\<exists>cl. supabase w' = Some cl) \<and> (\<exists>m. model w' = Some m) \<and>
   (supabase w \<noteq> None \<longrightarrow> supabase w' = supabase w) \<and>
   (model w \<noteq> None \<longrightarrow> model w' = model w)"
  by (auto simp: ensure_services_def split: option.splits sum.splits)

section \<open>Lemmas about the handler\<close>

lemmas demo_defs = demo_env_def demo_detect_def demo_probe_def demo_image_def demo_video_def
  demo_text_def demo_env_insert_fails_def demo_ready_def
lemmas code_defs = analyze_def analyze_try_def analyze_image_def analyze_video_def ensure_services_def
  init_supabase_def init_model_def get_env_def getenv_def truthy_def startup_def
  run_yolo_on_image_bytes_def save_image_def encode_image_to_base64_def content_type_of_def
  upload_to_supabase_storage_def insert_violation_record_def VideoCapture_def cap_release_def
  VideoWriter_def writer_write_def writer_release_def output_fps_def loop_body_def
  label_of_def uuid4_def new_array_def draw_boxes_on_image_def boxes_of_def cls_ids_of_def confs_of_def
  path_join_def endswith_def py_lower_def lower_char_def py_int_def

lemma analyze_image_shape:
  "analyze_image e cl b fn c w = (Inr (bd, st), w') \<Longrightarrow>
   \<exists>vd vt ts url b64. bd = ImageBody vd vt ts url b64"
  by (auto simp: analyze_image_def Let_def split: prod.splits sum.splits)

lemma analyze_video_shape:
  "analyze_video e cl m b fn c w = (Inr (bd, st), w') \<Longrightarrow>
   (\<exists>vd vt ts url. bd = VideoBody vd vt ts url) \<or> bd = ErrorBody ''Failed to read video'' \<and> st = 400"
  by (auto simp: analyze_video_def Let_def split: prod.splits sum.splits if_splits)

text \<open>What the handler does with a supported upload, after the file name is settled.\<close>

lemma analyze_try_supported:
  assumes "startswith (up_mimetype file) ''image/'' \<or> startswith (up_mimetype file) ''video/''"
  shows "\<exists>fn w1. (truthy (up_filename file) \<and> w1 = w \<or>
              \<not> truthy (up_filename file) \<and> w1 = w\<lparr>uuid_count := Suc (uuid_count w)\<rparr>) \<and>
     analyze_try e (Some file) w =
       (case ensure_services e w1 of
          (Inl x, w2) \<Rightarrow> (Inl x, w2)
        | (Inr u, w2) \<Rightarrow>
            if startswith (up_mimetype file) ''image/''
            then analyze_image e (the (supabase w2))
                   (the (getenv e ''SUPABASE_BUCKET'' (Some ''violations''))) fn (up_content file) w2
            else analyze_video e (the (supabase w2)) (the (model w2))
                   (the (getenv e ''SUPABASE_BUCKET'' (Some ''violations''))) fn (up_content file) w2)"
proof (cases "truthy (up_filename file)")
  case True
  show ?thesis
    by (rule exI[of _ "the (up_filename file)"], rule exI[of _ w])
       (use assms True in \<open>auto simp: analyze_try_def Let_def split: prod.splits sum.splits\<close>)
next
  case False
  show ?thesis
    by (rule exI[of _ "''upload_'' @ uuid4_hex e (uuid_count w)"],
        rule exI[of _ "w\<lparr>uuid_count := Suc (uuid_count w)\<rparr>"])
       (use assms False in \<open>auto simp: analyze_try_def uuid4_def Let_def split: prod.splits sum.splits\<close>)
qed

lemma analyze_unsupported:
  assumes "\<not> startswith (up_mimetype file) ''image/''" "\<not> startswith (up_mimetype file) ''video/''"
  shows "analyze e (Some file) w =
     ((ErrorBody ''Unsupported file type'', 400),
      if truthy (up_filename file) then w else w\<lparr>uuid_count := Suc (uuid_count w)\<rparr>)"
  using assms by (simp add: analyze_def analyze_try_def uuid4_def Let_def)


lemma analyze_summary:
  "(supabase w \<noteq> None \<longrightarrow> supabase (snd (analyze e req w)) = supabase w) \<and>
   (model w \<noteq> None \<longrightarrow> model (snd (analyze e req w)) = model w) \<and>
   (snd (fst (analyze e req w)) = 200 \<or> snd (fst (analyze e req w)) = 400 \<or>
    snd (fst (analyze e req w)) = 500) \<and>
   (snd (fst (analyze e req w)) \<noteq> 200 \<longrightarrow>
      violations (snd (analyze e req w)) = violations w \<and>
      (\<exists>msg. fst (fst (analyze e req w)) = ErrorBody msg))"
proof (cases req)
  case None
  then show ?thesis by (simp add: analyze_def analyze_try_def)
next
  case (Some upl)
  show ?thesis
  proof (cases "startswith (up_mimetype upl) ''image/'' \<or> startswith (up_mimetype upl) ''video/''")
    case False
    then show ?thesis unfolding Some by (simp add: analyze_unsupported)
  next
    case True
    from analyze_try_supported[OF True, of w e] obtain fn w1 where
      w1: "truthy (up_filename upl) \<and> w1 = w \<or>
           \<not> truthy (up_filename upl) \<and> w1 = w\<lparr>uuid_count := Suc (uuid_count w)\<rparr>" and
      t: "analyze_try e (Some upl) w =
       (case ensure_services e w1 of
          (Inl x, w2) \<Rightarrow> (Inl x, w2)
        | (Inr u, w2) \<Rightarrow>
            if startswith (up_mimetype upl) ''image/''
            then analyze_image e (the (supabase w2))
                   (the (getenv e ''SUPABASE_BUCKET'' (Some ''violations''))) fn (up_content upl) w2
            else analyze_video e (the (supabase w2)) (the (model w2))
                   (the (getenv e ''SUPABASE_BUCKET'' (Some ''violations''))) fn (up_content upl) w2)"
      by blast
    have c1: "supabase w1 = supabase w" "model w1 = model w" "violations w1 = violations w"
      using w1 by auto
    obtain r2 w2 where es: "ensure_services e w1 = (r2, w2)" by (cases "ensure_services e w1")
    show ?thesis
    proof (cases r2)
      case (Inl x)
      from ensure_services_Inl[OF es[unfolded Inl]] have
        e2: "w2 = w1\<lparr>supabase := supabase w2\<rparr>" and s2: "supabase w1 \<noteq> None \<longrightarrow> supabase w2 = supabase w1"
        by simp_all
      have "model w2 = model w" "violations w2 = violations w"
        by (subst e2, simp add: c1)+
      then show ?thesis using s2 c1 es Inl t unfolding Some by (simp add: analyze_def)
    next
      case (Inr u)
      from ensure_services_Inr[OF es[unfolded Inr]] have
        e2: "w2 = w1\<lparr>supabase := supabase w2, model := model w2\<rparr>" and
        s2: "supabase w1 \<noteq> None \<longrightarrow> supabase w2 = supabase w1" and
        m2: "model w1 \<noteq> None \<longrightarrow> model w2 = model w1"
        by simp_all
      have v2: "violations w2 = violations w" by (subst e2) (simp add: c1)
      obtain r w' where p: "(if startswith (up_mimetype upl) ''image/''
            then analyze_image e (the (supabase w2))
                   (the (getenv e ''SUPABASE_BUCKET'' (Some ''violations''))) fn (up_content upl) w2
            else analyze_video e (the (supabase w2)) (the (model w2))
                   (the (getenv e ''SUPABASE_BUCKET'' (Some ''violations''))) fn (up_content upl) w2)
            = (r, w')"
        by (cases "if startswith (up_mimetype upl) ''image/''
            then analyze_image e (the (supabase w2))
                   (the (getenv e ''SUPABASE_BUCKET'' (Some ''violations''))) fn (up_content upl) w2
            else analyze_video e (the (supabase w2)) (the (model w2))
                   (the (getenv e ''SUPABASE_BUCKET'' (Some ''violations''))) fn (up_content upl) w2")
      have a: "analyze e (Some upl) w =
          (case r of Inl x \<Rightarrow> (ErrorBody (str_exn x), 500) | Inr rs \<Rightarrow> rs, w')"
        using t es Inr p by (simp add: analyze_def split: sum.splits)
      have core: "supabase w' = supabase w2 \<and> model w' = model w2 \<and>
          (violations w' = violations w2 \<or>
             (\<exists>b. r = Inr (b, 200) \<and> (\<forall>msg. b \<noteq> ErrorBody msg))) \<and>
          (\<forall>b st. r = Inr (b, st) \<longrightarrow>
             st = 200 \<and> (\<forall>msg. b \<noteq> ErrorBody msg) \<or> st = 400 \<and> (\<exists>msg. b = ErrorBody msg))"
      proof (cases "startswith (up_mimetype upl) ''image/''")
        case True
        with p have i: "analyze_image e (the (supabase w2))
                   (the (getenv e ''SUPABASE_BUCKET'' (Some ''violations''))) fn (up_content upl) w2
                   = (r, w')" by simp
        have "\<And>b st. r = Inr (b, st) \<Longrightarrow> st = 200"
          using i by (auto simp: analyze_image_def Let_def split: prod.splits sum.splits)
        with analyze_image_core[OF i] i show ?thesis
          by (auto dest: analyze_image_shape)
      next
        case False
        with p have i: "analyze_video e (the (supabase w2)) (the (model w2))
                   (the (getenv e ''SUPABASE_BUCKET'' (Some ''violations''))) fn (up_content upl) w2
                   = (r, w')" by simp
        from analyze_video_core[OF i] i show ?thesis
          by (auto dest: analyze_video_shape)
      qed
      show ?thesis unfolding Some a using core s2 m2 c1 v2
        by (cases r) auto
    qed
  qed
qed

lemma analyze_pipeline:
  assumes "fst (analyze e (Some upl) w) = (bd, st)" "\<forall>msg. bd \<noteq> ErrorBody msg"
  shows "\<exists>fn w2 cl m bucket.
     supabase w2 = Some cl \<and> model w2 = Some m \<and>
     w2 = w\<lparr>supabase := supabase w2, model := model w2,
            uuid_count := (if truthy (up_filename upl) then uuid_count w else Suc (uuid_count w))\<rparr> \<and>
     (if startswith (up_mimetype upl) ''image/''
      then analyze_image e cl bucket fn (up_content upl) w2
      else analyze_video e cl m bucket fn (up_content upl) w2) =
     (Inr (bd, st), snd (analyze e (Some upl) w))"
proof -
  have sup: "startswith (up_mimetype upl) ''image/'' \<or> startswith (up_mimetype upl) ''video/''"
  proof (rule ccontr)
    assume "\<not> ?thesis"
    then have "fst (analyze e (Some upl) w) = (ErrorBody ''Unsupported file type'', 400)"
      by (simp add: analyze_unsupported)
    with assms(1) have "bd = ErrorBody ''Unsupported file type''" by simp
    with assms(2) show False by blast
  qed
  from analyze_try_supported[OF sup, of w e] obtain fn w1 where
    w1: "truthy (up_filename upl) \<and> w1 = w \<or>
         \<not> truthy (up_filename upl) \<and> w1 = w\<lparr>uuid_count := Suc (uuid_count w)\<rparr>" and
    t: "analyze_try e (Some upl) w =
       (case ensure_services e w1 of
          (Inl x, w2) \<Rightarrow> (Inl x, w2)
        | (Inr u, w2) \<Rightarrow>
            if startswith (up_mimetype upl) ''image/''
            then analyze_image e (the (supabase w2))
                   (the (getenv e ''SUPABASE_BUCKET'' (Some ''violations''))) fn (up_content upl) w2
            else analyze_video e (the (supabase w2)) (the (model w2))
                   (the (getenv e ''SUPABASE_BUCKET'' (Some ''violations''))) fn (up_content upl) w2)"
    by blast
  obtain r2 w2 where es: "ensure_services e w1 = (r2, w2)" by (cases "ensure_services e w1")
  from assms t es obtain u where r2: "r2 = Inr u"
    by (cases r2) (auto simp: analyze_def)
  from ensure_services_Inr[OF es[unfolded r2]] obtain cl m where
    e2: "w2 = w1\<lparr>supabase := supabase w2, model := model w2\<rparr>" and
    cl: "supabase w2 = Some cl" and m: "model w2 = Some m"
    by blast
  let ?b = "the (getenv e ''SUPABASE_BUCKET'' (Some ''violations''))"
  let ?p = "if startswith (up_mimetype upl) ''image/''
      then analyze_image e cl ?b fn (up_content upl) w2
      else analyze_video e cl m ?b fn (up_content upl) w2"
  have a: "analyze e (Some upl) w =
      (case ?p of (Inl x, w') \<Rightarrow> ((ErrorBody (str_exn x), 500), w') | (Inr rs, w') \<Rightarrow> (rs, w'))"
    using t es r2 cl m by (simp add: analyze_def)
  obtain r w' where p: "?p = (r, w')" by (cases ?p)
  from assms a p have rr: "r = Inr (bd, st)"
    by (cases r) auto
  from a p rr have "snd (analyze e (Some upl) w) = w'" by simp
  with p rr have fin: "?p = (Inr (bd, st), snd (analyze e (Some upl) w))" by simp
  have sh: "w2 = w\<lparr>supabase := supabase w2, model := model w2,
            uuid_count := (if truthy (up_filename upl) then uuid_count w else Suc (uuid_count w))\<rparr>"
  proof (cases "truthy (up_filename upl)")
    case True
    with w1 have "w1 = w" by simp
    then show ?thesis using True by (subst e2) simp
  next
    case False
    with w1 have "w1 = w\<lparr>uuid_count := Suc (uuid_count w)\<rparr>" by simp
    then show ?thesis using False by (subst e2) simp
  qed
  show ?thesis
    by (rule exI[of _ fn], rule exI[of _ w2], rule exI[of _ cl], rule exI[of _ m], rule exI[of _ ?b])
       (intro conjI cl m sh fin)
qed

lemma analyze_video_response:
  assumes "fst (analyze e (Some upl) w) = (VideoBody vd vt ts url, st)"
  shows "\<exists>v m p. cv_probe e (up_content upl) = Some v \<and>
           model (snd (analyze e (Some upl) w)) = Some m \<and>
           vd = (\<exists>f\<in>set (v_frames v). detection_set e m f \<noteq> []) \<and>
           vt = label_of vd \<and> st = 200 \<and>
           writers (snd (analyze e (Some upl) w)) = writers w @
             [\<lparr>wr_path = p, wr_fps = output_fps (v_fps v),
               wr_size = (py_int (v_width v), py_int (v_height v)),
               wr_frames = map (output_frame e m) (v_frames v), wr_opened = False\<rparr>]"
proof -
  have ne: "\<forall>msg. VideoBody vd vt ts url \<noteq> ErrorBody msg" by simp
  from analyze_pipeline[OF assms ne] obtain fn w2 cl m bucket where
    m: "model w2 = Some m" and
    w2: "w2 = w\<lparr>supabase := supabase w2, model := model w2,
            uuid_count := (if truthy (up_filename upl) then uuid_count w else Suc (uuid_count w))\<rparr>" and
    p: "(if startswith (up_mimetype upl) ''image/''
      then analyze_image e cl bucket fn (up_content upl) w2
      else analyze_video e cl m bucket fn (up_content upl) w2) =
     (Inr (VideoBody vd vt ts url, st), snd (analyze e (Some upl) w))"
    by blast
  have "\<not> startswith (up_mimetype upl) ''image/''"
    using p by (auto dest: analyze_image_shape)
  with p have v: "analyze_video e cl m bucket fn (up_content upl) w2 =
     (Inr (VideoBody vd vt ts url, st), snd (analyze e (Some upl) w))" by simp
  have wr: "writers w2 = writers w" by (subst w2) simp
  from analyze_video_success[OF v] m wr show ?thesis by auto
qed

lemma analyze_image_response:
  assumes "fst (analyze e (Some upl) w) = (ImageBody vd vt ts url b64, st)"
  shows "\<exists>px m. cv_imdecode e (up_content upl) = Some px \<and>
           model (snd (analyze e (Some upl) w)) = Some m \<and>
           vd = (detection_set e m px \<noteq> []) \<and> vt = label_of vd \<and> st = 200 \<and>
           b64 = b64encode e (cv_jpg e (output_frame e m px)) \<and>
           files (snd (analyze e (Some upl) w))
             (path_join (results_dir e)
                (uuid4_hex e (if truthy (up_filename upl) then uuid_count w else Suc (uuid_count w))
                 @ ''_annotated.jpg'')) = Some (cv_jpg e (output_frame e m px)) \<and>
           arrays (snd (analyze e (Some upl) w)) ! length (arrays w) = px \<and>
           (\<not> vd \<longrightarrow> arrays (snd (analyze e (Some upl) w)) = arrays w @ [px])"
proof -
  have ne: "\<forall>msg. ImageBody vd vt ts url b64 \<noteq> ErrorBody msg" by simp
  from analyze_pipeline[OF assms ne] obtain fn w2 cl m bucket where
    m: "model w2 = Some m" and
    w2: "w2 = w\<lparr>supabase := supabase w2, model := model w2,
            uuid_count := (if truthy (up_filename upl) then uuid_count w else Suc (uuid_count w))\<rparr>" and
    p: "(if startswith (up_mimetype upl) ''image/''
      then analyze_image e cl bucket fn (up_content upl) w2
      else analyze_video e cl m bucket fn (up_content upl) w2) =
     (Inr (ImageBody vd vt ts url b64, st), snd (analyze e (Some upl) w))"
    by blast
  have "startswith (up_mimetype upl) ''image/''"
    using p by (auto dest: analyze_video_shape split: if_splits)
  with p have v: "analyze_image e cl bucket fn (up_content upl) w2 =
     (Inr (ImageBody vd vt ts url b64, st), snd (analyze e (Some upl) w))" by simp
  have f: "arrays w2 = arrays w"
    "uuid_count w2 = (if truthy (up_filename upl) then uuid_count w else Suc (uuid_count w))"
    by (subst w2, simp)+
  from analyze_image_success[OF v m] m f show ?thesis by auto
qed

text \<open>A run in which the table rejects the row: the request fails, no row exists, and the
  object uploaded before the insert stays in the bucket.\<close>

lemma insert_failure_keeps_upload:
  "fst (analyze demo_env_insert_fails (Some (demo_image [0, 1])) demo_ready) =
     (ErrorBody ''insert failed'', 500) \<and>
   violations (snd (analyze demo_env_insert_fails (Some (demo_image [0, 1])) demo_ready)) = [] \<and>
   bucket_objects (snd (analyze demo_env_insert_fails (Some (demo_image [0, 1])) demo_ready))
     (''violations'', ''images/a.jpg'') = Some ([0, 1], ''image/jpeg'')"
  by (simp add: demo_defs code_defs Let_def)

lemma run_yolo_model:
  "run_yolo_on_image_bytes e content w = (Inr r, w') \<Longrightarrow> \<exists>m. model w = Some m"
  by (cases "model w") (auto simp: run_yolo_on_image_bytes_def)

lemma run_yolo_no_boxes:
  assumes "run_yolo_on_image_bytes e content w = (Inr r, w')" "yo_boxes r = []"
  shows "yo_annotated r = yo_img r"
proof (cases "cv_imdecode e content")
  case None
  from run_yolo_undecoded[OF assms(1) None] show ?thesis by simp
next
  case (Some px)
  from assms(1) run_yolo_model obtain m where m: "model w = Some m" by blast
  from run_yolo_decoded[OF assms(1) m Some] assms(2) show ?thesis by simp
qed

section \<open>The claims\<close>

text \<open>
  C1. When \<open>/analyze\<close> answers a video upload with a verdict, the \<open>violation\<close> field is the
  disjunction, over all frames of the stream, of "the detector returned at least one box for
  this frame"; for a stream with no frame it is false.
\<close>

theorem video_verdict_is_or_over_frames:
  assumes "fst (analyze e (Some upl) w) = (VideoBody vd vt ts url, st)"
  shows "\<exists>v m. cv_probe e (up_content upl) = Some v \<and>
           model (snd (analyze e (Some upl) w)) = Some m \<and>
           vd = (\<exists>f\<in>set (v_frames v). detection_set e m f \<noteq> []) \<and>
           (v_frames v = [] \<longrightarrow> \<not> vd)"
proof -
  from analyze_video_response[OF assms] obtain v m where
    "cv_probe e (up_content upl) = Some v" "model (snd (analyze e (Some upl) w)) = Some m"
    "vd = (\<exists>f\<in>set (v_frames v). detection_set e m f \<noteq> [])"
    by blast
  then show ?thesis by (intro exI[of _ v] exI[of _ m]) auto
qed

theorem video_verdict_is_or_over_frames_witness:
  "fst (analyze demo_env (Some (demo_video [0, 25, 0, 1, 0])) demo_ready) =
     (VideoBody True ''Violation Detected'' ''t'' ''violations/videos/aa.mp4'', 200) \<and>
   (\<exists>v m. cv_probe demo_env (up_content (demo_video [0, 25, 0, 1, 0])) = Some v \<and>
      model (snd (analyze demo_env (Some (demo_video [0, 25, 0, 1, 0])) demo_ready)) = Some m \<and>
      True = (\<exists>f\<in>set (v_frames v). detection_set demo_env m f \<noteq> []) \<and>
      (v_frames v = [] \<longrightarrow> \<not> True)) \<and>
   fst (analyze demo_env (Some (demo_video [0, 25])) demo_ready) =
     (VideoBody False ''No Violation'' ''t'' ''violations/videos/aa.mp4'', 200)"
proof -
  have h: "fst (analyze demo_env (Some (demo_video [0, 25, 0, 1, 0])) demo_ready) =
     (VideoBody True ''Violation Detected'' ''t'' ''violations/videos/aa.mp4'', 200)"
    by (simp add: demo_defs code_defs Let_def)
  have z: "fst (analyze demo_env (Some (demo_video [0, 25])) demo_ready) =
     (VideoBody False ''No Violation'' ''t'' ''violations/videos/aa.mp4'', 200)"
    by (simp add: demo_defs code_defs Let_def)
  from video_verdict_is_or_over_frames[OF h] h z show ?thesis by blast
qed

text \<open>
  C2. When \<open>/analyze\<close> answers an image upload with a verdict, the \<open>violation\<close> field says
  whether the detector returned at least one box for the decoded frame, and \<open>violation_type\<close>
  is \<open>Violation Detected\<close> exactly when it is true and \<open>No Violation\<close> exactly when it is false.
\<close>

theorem image_verdict_and_label:
  assumes "fst (analyze e (Some upl) w) = (ImageBody vd vt ts url b64, st)"
  shows "\<exists>px m. cv_imdecode e (up_content upl) = Some px \<and>
           model (snd (analyze e (Some upl) w)) = Some m \<and>
           vd = (detection_set e m px \<noteq> []) \<and>
           (vt = ''Violation Detected'') = vd \<and> (vt = ''No Violation'') = (\<not> vd)"
proof -
  from analyze_image_response[OF assms] obtain px m where
    "cv_imdecode e (up_content upl) = Some px" "model (snd (analyze e (Some upl) w)) = Some m"
    "vd = (detection_set e m px \<noteq> [])" "vt = label_of vd"
    by blast
  then show ?thesis by (intro exI[of _ px] exI[of _ m]) (auto simp: label_of_def)
qed

theorem image_verdict_and_label_witness:
  "fst (analyze demo_env (Some (demo_image [1, 1])) demo_ready) =
     (ImageBody True ''Violation Detected'' ''t'' ''violations/images/a.jpg'' ''11'', 200) \<and>
   (\<exists>px m. cv_imdecode demo_env (up_content (demo_image [1, 1])) = Some px \<and>
      model (snd (analyze demo_env (Some (demo_image [1, 1])) demo_ready)) = Some m \<and>
      True = (detection_set demo_env m px \<noteq> []) \<and>
      (''Violation Detected'' = ''Violation Detected'') = True \<and>
      (''Violation Detected'' = ''No Violation'') = (\<not> True))"
proof -
  have h: "fst (analyze demo_env (Some (demo_image [1, 1])) demo_ready) =
     (ImageBody True ''Violation Detected'' ''t'' ''violations/images/a.jpg'' ''11'', 200)"
    by (simp add: demo_defs code_defs Let_def)
  from image_verdict_and_label[OF h] h show ?thesis by blast
qed

text \<open>
  C7. When \<open>/analyze\<close> answers a video upload with a verdict, the writer of this request has
  received exactly one frame per frame of the stream, in the order of the stream: frame
  \<open>n\<close> written is frame \<open>n\<close> read, unchanged when it has no detection and annotated otherwise.
\<close>

theorem one_output_frame_per_input_frame:
  assumes "fst (analyze e (Some upl) w) = (VideoBody vd vt ts url, st)"
  shows "\<exists>v m. cv_probe e (up_content upl) = Some v \<and>
           model (snd (analyze e (Some upl) w)) = Some m \<and>
           length (writers (snd (analyze e (Some upl) w))) = Suc (length (writers w)) \<and>
           length (wr_frames (writers (snd (analyze e (Some upl) w)) ! length (writers w))) =
             length (v_frames v) \<and>
           (\<forall>n<length (v_frames v).
              wr_frames (writers (snd (analyze e (Some upl) w)) ! length (writers w)) ! n =
                output_frame e m (v_frames v ! n))"
proof -
  from analyze_video_response[OF assms] obtain v m p where
    v: "cv_probe e (up_content upl) = Some v" and m: "model (snd (analyze e (Some upl) w)) = Some m"
    and wr: "writers (snd (analyze e (Some upl) w)) = writers w @
             [\<lparr>wr_path = p, wr_fps = output_fps (v_fps v),
               wr_size = (py_int (v_width v), py_int (v_height v)),
               wr_frames = map (output_frame e m) (v_frames v), wr_opened = False\<rparr>]"
    by blast
  show ?thesis by (intro exI[of _ v] exI[of _ m]) (simp add: v m wr)
qed

theorem one_output_frame_per_input_frame_witness:
  "fst (analyze demo_env (Some (demo_video [0, 25, 0, 1, 0])) demo_ready) =
     (VideoBody True ''Violation Detected'' ''t'' ''violations/videos/aa.mp4'', 200) \<and>
   wr_frames (writers (snd (analyze demo_env (Some (demo_video [0, 25, 0, 1, 0])) demo_ready)) ! 0) =
     [[0], [255], [0]] \<and>
   (\<exists>v m. cv_probe demo_env (up_content (demo_video [0, 25, 0, 1, 0])) = Some v \<and>
           model (snd (analyze demo_env (Some (demo_video [0, 25, 0, 1, 0])) demo_ready)) = Some m \<and>
           length (writers (snd (analyze demo_env (Some (demo_video [0, 25, 0, 1, 0])) demo_ready))) =
             Suc (length (writers demo_ready)) \<and>
           length (wr_frames (writers (snd (analyze demo_env (Some (demo_video [0, 25, 0, 1, 0]))
               demo_ready)) ! length (writers demo_ready))) = length (v_frames v) \<and>
           (\<forall>n<length (v_frames v).
              wr_frames (writers (snd (analyze demo_env (Some (demo_video [0, 25, 0, 1, 0]))
                 demo_ready)) ! length (writers demo_ready)) ! n =
                output_frame demo_env m (v_frames v ! n)))"
proof -
  have h: "fst (analyze demo_env (Some (demo_video [0, 25, 0, 1, 0])) demo_ready) =
     (VideoBody True ''Violation Detected'' ''t'' ''violations/videos/aa.mp4'', 200)"
    by (simp add: demo_defs code_defs Let_def)
  have f: "wr_frames (writers (snd (analyze demo_env (Some (demo_video [0, 25, 0, 1, 0])) demo_ready)) ! 0) =
     [[0], [255], [0]]"
    by (simp add: demo_defs code_defs Let_def)
  from one_output_frame_per_input_frame[OF h] h f show ?thesis by blast
qed

text \<open>
  C8. An upload whose declared content type starts with neither \<open>image/\<close> nor \<open>video/\<close> is
  answered with status 400 and \<open>Unsupported file type\<close>, and the world is left as it was (only
  the uuid generator has advanced when the upload had no file name): nothing is written,
  uploaded or inserted, and the answer does not depend on any collaborator.
\<close>

theorem unsupported_type_rejected:
  assumes "\<not> startswith (up_mimetype upl) ''image/''" "\<not> startswith (up_mimetype upl) ''video/''"
  shows "analyze e (Some upl) w =
     ((ErrorBody ''Unsupported file type'', 400),
      if truthy (up_filename upl) then w else w\<lparr>uuid_count := Suc (uuid_count w)\<rparr>)"
  using assms by (rule analyze_unsupported)

theorem unsupported_type_rejected_witness:
  "\<not> startswith (up_mimetype demo_text) ''image/'' \<and>
   \<not> startswith (up_mimetype demo_text) ''video/'' \<and>
   analyze demo_env (Some demo_text) demo_ready =
     ((ErrorBody ''Unsupported file type'', 400), demo_ready)"
proof -
  have a: "\<not> startswith (up_mimetype demo_text) ''image/''" by (simp add: demo_text_def)
  have b: "\<not> startswith (up_mimetype demo_text) ''video/''" by (simp add: demo_text_def)
  have c: "truthy (up_filename demo_text)" by (simp add: demo_text_def truthy_def)
  from unsupported_type_rejected[OF a b, of demo_env demo_ready] a b c show ?thesis by simp
qed




text \<open>
  C4 fails on the code. A video whose second frame makes the detector raise is answered
  with status 500, and neither \<open>cap.release()\<close> nor \<open>writer.release()\<close> has run: the capture and
  the writer this request created are still open.
\<close>

theorem handles_stay_open_when_detection_raises:
  "fst (analyze demo_env (Some (demo_video [0, 25, 0, 9, 0])) demo_ready) =
     (ErrorBody ''inference failed'', 500) \<and>
   cap_opened (captures (snd (analyze demo_env (Some (demo_video [0, 25, 0, 9, 0])) demo_ready)) ! 0) \<and>
   wr_opened (writers (snd (analyze demo_env (Some (demo_video [0, 25, 0, 9, 0])) demo_ready)) ! 0) \<and>
   captures demo_ready = [] \<and> writers demo_ready = []"
  by (simp add: demo_defs code_defs Let_def)



text \<open>
  C9. An exception raised anywhere in the body of the handler is turned into the response
  \<open>{'error': str(e)}\<close> with status 500; the handler always returns a response with status
  200, 400 or 500; and a request, failed or not, never resets a storage client or a model
  that later requests rely on.
\<close>

theorem errors_become_responses:
  "(analyze_try e req w = (Inl x, w1) \<longrightarrow>
      analyze e req w = ((ErrorBody (str_exn x), 500), w1)) \<and>
   (snd (fst (analyze e req w)) = 200 \<or> snd (fst (analyze e req w)) = 400 \<or>
    snd (fst (analyze e req w)) = 500) \<and>
   (supabase w = Some cl \<longrightarrow> supabase (snd (analyze e req w)) = Some cl) \<and>
   (model w = Some m \<longrightarrow> model (snd (analyze e req w)) = Some m)"
proof -
  have "analyze_try e req w = (Inl x, w1) \<longrightarrow>
      analyze e req w = ((ErrorBody (str_exn x), 500), w1)"
    by (simp add: analyze_def)
  moreover have "supabase w = Some cl \<longrightarrow> supabase (snd (analyze e req w)) = Some cl"
    using analyze_summary[of w e req] by auto
  moreover have "model w = Some m \<longrightarrow> model (snd (analyze e req w)) = Some m"
    using analyze_summary[of w e req] by auto
  ultimately show ?thesis using analyze_summary[of w e req] by blast
qed

theorem errors_become_responses_witness:
  "analyze_try demo_env (Some (demo_video [0, 25, 0, 9, 0])) demo_ready =
     (Inl (LibraryError ''inference failed''),
      snd (analyze_try demo_env (Some (demo_video [0, 25, 0, 9, 0])) demo_ready)) \<and>
   analyze demo_env (Some (demo_video [0, 25, 0, 9, 0])) demo_ready =
     ((ErrorBody ''inference failed'', 500),
      snd (analyze_try demo_env (Some (demo_video [0, 25, 0, 9, 0])) demo_ready)) \<and>
   supabase demo_ready = Some \<lparr>cl_url = ''u'', cl_key = ''k''\<rparr> \<and>
   supabase (snd (analyze demo_env (Some (demo_video [0, 25, 0, 9, 0])) demo_ready)) =
     Some \<lparr>cl_url = ''u'', cl_key = ''k''\<rparr> \<and>
   model demo_ready = Some ''yolov8n.pt'' \<and>
   model (snd (analyze demo_env (Some (demo_video [0, 25, 0, 9, 0])) demo_ready)) = Some ''yolov8n.pt'' \<and>
   fst (analyze demo_env (Some (demo_image [1, 1]))
         (snd (analyze demo_env (Some (demo_video [0, 25, 0, 9, 0])) demo_ready))) =
     (ImageBody True ''Violation Detected'' ''t'' ''violations/images/aaa.jpg'' ''11'', 200)"
proof -
  have f: "fst (analyze_try demo_env (Some (demo_video [0, 25, 0, 9, 0])) demo_ready) =
     Inl (LibraryError ''inference failed'')"
    by (simp add: demo_defs code_defs Let_def)
  have h: "analyze_try demo_env (Some (demo_video [0, 25, 0, 9, 0])) demo_ready =
     (Inl (LibraryError ''inference failed''),
      snd (analyze_try demo_env (Some (demo_video [0, 25, 0, 9, 0])) demo_ready))"
    by (subst f[symmetric]) simp
  have s: "supabase demo_ready = Some \<lparr>cl_url = ''u'', cl_key = ''k''\<rparr>"
    by (simp add: demo_defs startup_def)
  have m: "model demo_ready = Some ''yolov8n.pt''"
    by (simp add: demo_defs startup_def init_model_def getenv_def)
  have n: "fst (analyze demo_env (Some (demo_image [1, 1]))
         (snd (analyze demo_env (Some (demo_video [0, 25, 0, 9, 0])) demo_ready))) =
     (ImageBody True ''Violation Detected'' ''t'' ''violations/images/aaa.jpg'' ''11'', 200)"
    by (simp add: demo_defs code_defs Let_def)
  note t = errors_become_responses[of demo_env "Some (demo_video [0, 25, 0, 9, 0])" demo_ready
      "LibraryError ''inference failed''"
      "snd (analyze_try demo_env (Some (demo_video [0, 25, 0, 9, 0])) demo_ready)"
      "\<lparr>cl_url = ''u'', cl_key = ''k''\<rparr>" "''yolov8n.pt''"]
  have a: "analyze demo_env (Some (demo_video [0, 25, 0, 9, 0])) demo_ready =
     ((ErrorBody ''inference failed'', 500),
      snd (analyze_try demo_env (Some (demo_video [0, 25, 0, 9, 0])) demo_ready))"
    using t h by simp
  have b: "supabase (snd (analyze demo_env (Some (demo_video [0, 25, 0, 9, 0])) demo_ready)) =
     Some \<lparr>cl_url = ''u'', cl_key = ''k''\<rparr>"
    using t s by blast
  have c: "model (snd (analyze demo_env (Some (demo_video [0, 25, 0, 9, 0])) demo_ready)) =
     Some ''yolov8n.pt''"
    using t m by blast
  show ?thesis by (intro conjI h a s b m c n)
qed

text \<open>
  C10. \<open>draw_boxes_on_image\<close> leaves every array that existed before the call as it was,
  whatever it returns or raises; the array it returns is a new one, and the input frame
  still has its pixels. After \<open>run_yolo_on_image_bytes\<close> the original image is still the
  decoded frame, also when boxes were drawn.
\<close>

theorem draw_boxes_never_mutates_input:
  "take (length h) (snd (draw_boxes_on_image e img boxes labels h)) = h \<and>
   (draw_boxes_on_image e (Some a) boxes labels h = (Inr a', h') \<and> a < length h \<longrightarrow>
      a' \<noteq> a \<and> h' ! a = h ! a) \<and>
   (run_yolo_on_image_bytes e content w = (Inr r, w') \<and> cv_imdecode e content = Some px \<longrightarrow>
      yo_img r = Some (length (arrays w)) \<and> arrays w' ! length (arrays w) = px)"
proof (intro conjI impI)
  show "take (length h) (snd (draw_boxes_on_image e img boxes labels h)) = h"
    by (rule draw_boxes_take)
next
  assume d: "draw_boxes_on_image e (Some a) boxes labels h = (Inr a', h') \<and> a < length h"
  then have "a' = length h" by (auto dest: draw_boxes_addr)
  with d show "a' \<noteq> a" by simp
next
  assume d: "draw_boxes_on_image e (Some a) boxes labels h = (Inr a', h') \<and> a < length h"
  have "take (length h) h' = h"
    using draw_boxes_take[of h e "Some a" boxes labels] d by simp
  then have "take (length h) h' ! a = h ! a" by simp
  with d show "h' ! a = h ! a" by simp
next
  assume r: "run_yolo_on_image_bytes e content w = (Inr r, w') \<and> cv_imdecode e content = Some px"
  from r run_yolo_model obtain m where m: "model w = Some m" by blast
  from run_yolo_decoded[OF _ m, of e content r w' px] r
  show "yo_img r = Some (length (arrays w))" by simp
next
  assume r: "run_yolo_on_image_bytes e content w = (Inr r, w') \<and> cv_imdecode e content = Some px"
  from r run_yolo_model obtain m where m: "model w = Some m" by blast
  from run_yolo_decoded[OF _ m, of e content r w' px] r
  show "arrays w' ! length (arrays w) = px" by simp
qed

theorem draw_boxes_never_mutates_input_witness:
  "draw_boxes_on_image demo_env (Some 0) [(0, 0, 1, 1)] [''car 0.90''] [[1, 1]] =
     (Inr 1, [[1, 1], [255, 255]]) \<and> (0::nat) < length [[1, 1 :: nat]] \<and>
   (1::nat) \<noteq> 0 \<and> [[1, 1], [255, 255 :: nat]] ! 0 = [[1, 1]] ! 0 \<and>
   take (length [[1, 1 :: nat]])
     (snd (draw_boxes_on_image demo_env (Some 0) [(0, 0, 1, 1)] [''car 0.90''] [[1, 1]])) = [[1, 1]] \<and>
   fst (run_yolo_on_image_bytes demo_env [1, 1] demo_ready) =
     Inr \<lparr>yo_img = Some 0, yo_annotated = Some 1, yo_boxes = [(0, 0, 1, 1)], yo_cls_ids = [0],
          yo_confs = [9 / 10], yo_names = (\<lambda>c. if c = 0 then Some ''car'' else None)\<rparr> \<and>
   cv_imdecode demo_env [1, 1] = Some [1, 1] \<and>
   arrays (snd (run_yolo_on_image_bytes demo_env [1, 1] demo_ready)) = [[1, 1], [255, 255]] \<and>
   arrays (snd (run_yolo_on_image_bytes demo_env [1, 1] demo_ready)) ! length (arrays demo_ready) = [1, 1]"
proof -
  let ?r = "\<lparr>yo_img = Some 0, yo_annotated = Some 1, yo_boxes = [(0, 0, 1, 1)], yo_cls_ids = [0],
          yo_confs = [9 / 10], yo_names = (\<lambda>c. if c = 0 then Some ''car'' else None)\<rparr>"
  let ?w = "snd (run_yolo_on_image_bytes demo_env [1, 1] demo_ready)"
  have d: "draw_boxes_on_image demo_env (Some 0) [(0, 0, 1, 1)] [''car 0.90''] [[1, 1]] =
     (Inr 1, [[1, 1], [255, 255]])"
    by (simp add: demo_defs code_defs Let_def)
  have f: "fst (run_yolo_on_image_bytes demo_env [1, 1] demo_ready) = Inr ?r"
    by (simp add: demo_defs code_defs Let_def)
  have y: "run_yolo_on_image_bytes demo_env [1, 1] demo_ready = (Inr ?r, ?w)"
    by (subst f[symmetric]) simp
  have p: "cv_imdecode demo_env [1, 1] = Some [1, 1]" by (simp add: demo_defs)
  have ar: "arrays ?w = [[1, 1], [255, 255]]" by (simp add: demo_defs code_defs Let_def)
  note t = draw_boxes_never_mutates_input[of "[[1, 1]]" demo_env "Some 0" "[(0, 0, 1, 1)]"
      "[''car 0.90'']" 0 1 "[[1, 1], [255, 255]]" "[1, 1]" demo_ready ?r ?w "[1, 1]"]
  have t1: "take (length [[1, 1 :: nat]])
     (snd (draw_boxes_on_image demo_env (Some 0) [(0, 0, 1, 1)] [''car 0.90''] [[1, 1]])) = [[1, 1]]"
    using t by blast
  have t3: "arrays ?w ! length (arrays demo_ready) = [1, 1]"
    using t y p by blast
  show ?thesis by (intro conjI d f p ar t1 t3) simp_all
qed

text \<open>
  C3. For a frame without detections nothing is drawn and nothing is copied:
  \<open>run_yolo_on_image_bytes\<close> returns the original array as the annotated one; the image
  path saves and encodes the decoded frame itself (the artifact and the inline preview are
  the JPEG encoding of its pixels, and no second array is allocated); the video path writes
  the frame as it was read.
\<close>

theorem empty_detection_frame_unmodified:
  "(run_yolo_on_image_bytes e content w0 = (Inr r, w1) \<and> yo_boxes r = [] \<longrightarrow>
      yo_annotated r = yo_img r) \<and>
   (fst (analyze e (Some upi) wi) = (ImageBody vd vt ts url b64, st) \<longrightarrow>
      (\<exists>px m. cv_imdecode e (up_content upi) = Some px \<and>
         model (snd (analyze e (Some upi) wi)) = Some m \<and>
         (detection_set e m px = [] \<longrightarrow>
            b64 = b64encode e (cv_jpg e px) \<and>
            files (snd (analyze e (Some upi) wi))
              (path_join (results_dir e)
                 (uuid4_hex e (if truthy (up_filename upi) then uuid_count wi
                               else Suc (uuid_count wi)) @ ''_annotated.jpg'')) =
              Some (cv_jpg e px) \<and>
            arrays (snd (analyze e (Some upi) wi)) = arrays wi @ [px]))) \<and>
   (fst (analyze e (Some upv) wv) = (VideoBody vd' vt' ts' url', st') \<longrightarrow>
      (\<exists>v m. cv_probe e (up_content upv) = Some v \<and>
         model (snd (analyze e (Some upv) wv)) = Some m \<and>
         (\<forall>n<length (v_frames v). detection_set e m (v_frames v ! n) = [] \<longrightarrow>
            wr_frames (writers (snd (analyze e (Some upv) wv)) ! length (writers wv)) ! n =
              v_frames v ! n)))"
proof (intro conjI impI)
  assume "run_yolo_on_image_bytes e content w0 = (Inr r, w1) \<and> yo_boxes r = []"
  then show "yo_annotated r = yo_img r" using run_yolo_no_boxes by blast
next
  assume a: "fst (analyze e (Some upi) wi) = (ImageBody vd vt ts url b64, st)"
  from analyze_image_response[OF a] obtain px m where
    f: "cv_imdecode e (up_content upi) = Some px"
      "model (snd (analyze e (Some upi) wi)) = Some m"
      "vd = (detection_set e m px \<noteq> [])"
      "b64 = b64encode e (cv_jpg e (output_frame e m px))"
      "files (snd (analyze e (Some upi) wi))
             (path_join (results_dir e)
                (uuid4_hex e (if truthy (up_filename upi) then uuid_count wi else Suc (uuid_count wi))
                 @ ''_annotated.jpg'')) = Some (cv_jpg e (output_frame e m px))"
      "\<not> vd \<longrightarrow> arrays (snd (analyze e (Some upi) wi)) = arrays wi @ [px]"
    by blast
  show "\<exists>px m. cv_imdecode e (up_content upi) = Some px \<and>
         model (snd (analyze e (Some upi) wi)) = Some m \<and>
         (detection_set e m px = [] \<longrightarrow>
            b64 = b64encode e (cv_jpg e px) \<and>
            files (snd (analyze e (Some upi) wi))
              (path_join (results_dir e)
                 (uuid4_hex e (if truthy (up_filename upi) then uuid_count wi
                               else Suc (uuid_count wi)) @ ''_annotated.jpg'')) =
              Some (cv_jpg e px) \<and>
            arrays (snd (analyze e (Some upi) wi)) = arrays wi @ [px])"
    using f by (intro exI[of _ px] exI[of _ m]) (simp add: output_frame_def)
next
  assume a: "fst (analyze e (Some upv) wv) = (VideoBody vd' vt' ts' url', st')"
  from analyze_video_response[OF a] obtain v m p where
    v: "cv_probe e (up_content upv) = Some v" and m: "model (snd (analyze e (Some upv) wv)) = Some m"
    and wr: "writers (snd (analyze e (Some upv) wv)) = writers wv @
             [\<lparr>wr_path = p, wr_fps = output_fps (v_fps v),
               wr_size = (py_int (v_width v), py_int (v_height v)),
               wr_frames = map (output_frame e m) (v_frames v), wr_opened = False\<rparr>]"
    by blast
  show "\<exists>v m. cv_probe e (up_content upv) = Some v \<and>
         model (snd (analyze e (Some upv) wv)) = Some m \<and>
         (\<forall>n<length (v_frames v). detection_set e m (v_frames v ! n) = [] \<longrightarrow>
            wr_frames (writers (snd (analyze e (Some upv) wv)) ! length (writers wv)) ! n =
              v_frames v ! n)"
    by (intro exI[of _ v] exI[of _ m]) (simp add: v m wr output_frame_def)
qed

theorem empty_detection_frame_unmodified_witness:
  "fst (run_yolo_on_image_bytes demo_env [0, 1] demo_ready) =
     Inr \<lparr>yo_img = Some 0, yo_annotated = Some 0, yo_boxes = [], yo_cls_ids = [],
          yo_confs = [], yo_names = (\<lambda>c. None)\<rparr> \<and>
   fst (analyze demo_env (Some (demo_image [0, 1])) demo_ready) =
     (ImageBody False ''No Violation'' ''t'' ''violations/images/a.jpg'' ''01'', 200) \<and>
   detection_set demo_env ''yolov8n.pt'' [0, 1] = [] \<and>
   files (snd (analyze demo_env (Some (demo_image [0, 1])) demo_ready)) ''r/a_annotated.jpg'' =
     Some [0, 1] \<and>
   arrays (snd (analyze demo_env (Some (demo_image [0, 1])) demo_ready)) = [[0, 1]] \<and>
   fst (analyze demo_env (Some (demo_video [0, 25, 0, 1, 0])) demo_ready) =
     (VideoBody True ''Violation Detected'' ''t'' ''violations/videos/aa.mp4'', 200) \<and>
   detection_set demo_env ''yolov8n.pt'' [0] = [] \<and>
   wr_frames (writers (snd (analyze demo_env (Some (demo_video [0, 25, 0, 1, 0])) demo_ready)) ! 0) =
     [[0], [255], [0]] \<and>
   (\<exists>v m. cv_probe demo_env (up_content (demo_video [0, 25, 0, 1, 0])) = Some v \<and>
         model (snd (analyze demo_env (Some (demo_video [0, 25, 0, 1, 0])) demo_ready)) = Some m \<and>
         (\<forall>n<length (v_frames v). detection_set demo_env m (v_frames v ! n) = [] \<longrightarrow>
            wr_frames (writers (snd (analyze demo_env (Some (demo_video [0, 25, 0, 1, 0])) demo_ready)) !
               length (writers demo_ready)) ! n = v_frames v ! n)) \<and>
   (\<exists>px m. cv_imdecode demo_env (up_content (demo_image [0, 1])) = Some px \<and>
         model (snd (analyze demo_env (Some (demo_image [0, 1])) demo_ready)) = Some m \<and>
         (detection_set demo_env m px = [] \<longrightarrow>
            ''01'' = b64encode demo_env (cv_jpg demo_env px)))"
proof -
  let ?r = "\<lparr>yo_img = Some 0, yo_annotated = Some 0, yo_boxes = [], yo_cls_ids = [],
          yo_confs = [], yo_names = (\<lambda>c. None)\<rparr> :: yolo_out"
  let ?w = "snd (run_yolo_on_image_bytes demo_env [0, 1] demo_ready)"
  have f: "fst (run_yolo_on_image_bytes demo_env [0, 1] demo_ready) = Inr ?r"
    by (simp add: demo_defs code_defs Let_def)
  have y: "run_yolo_on_image_bytes demo_env [0, 1] demo_ready = (Inr ?r, ?w)"
    by (subst f[symmetric]) simp
  have i: "fst (analyze demo_env (Some (demo_image [0, 1])) demo_ready) =
     (ImageBody False ''No Violation'' ''t'' ''violations/images/a.jpg'' ''01'', 200)"
    by (simp add: demo_defs code_defs Let_def)
  have d1: "detection_set demo_env ''yolov8n.pt'' [0, 1] = []"
    by (simp add: detection_set_def demo_defs boxes_of_def)
  have fl: "files (snd (analyze demo_env (Some (demo_image [0, 1])) demo_ready)) ''r/a_annotated.jpg'' =
     Some [0, 1]"
    by (simp add: demo_defs code_defs Let_def)
  have ar: "arrays (snd (analyze demo_env (Some (demo_image [0, 1])) demo_ready)) = [[0, 1]]"
    by (simp add: demo_defs code_defs Let_def)
  have v: "fst (analyze demo_env (Some (demo_video [0, 25, 0, 1, 0])) demo_ready) =
     (VideoBody True ''Violation Detected'' ''t'' ''violations/videos/aa.mp4'', 200)"
    by (simp add: demo_defs code_defs Let_def)
  have d2: "detection_set demo_env ''yolov8n.pt'' [0] = []"
    by (simp add: detection_set_def demo_defs boxes_of_def)
  have wf: "wr_frames (writers (snd (analyze demo_env (Some (demo_video [0, 25, 0, 1, 0])) demo_ready)) ! 0) =
     [[0], [255], [0]]"
    by (simp add: demo_defs code_defs Let_def)
  note t = empty_detection_frame_unmodified[of demo_env "[0, 1]" demo_ready ?r ?w
      "demo_image [0, 1]" demo_ready False "''No Violation''" "''t''" "''violations/images/a.jpg''"
      "''01''" 200 "demo_video [0, 25, 0, 1, 0]" demo_ready True "''Violation Detected''" "''t''"
      "''violations/videos/aa.mp4''" 200]
  have c3: "\<exists>v m. cv_probe demo_env (up_content (demo_video [0, 25, 0, 1, 0])) = Some v \<and>
         model (snd (analyze demo_env (Some (demo_video [0, 25, 0, 1, 0])) demo_ready)) = Some m \<and>
         (\<forall>n<length (v_frames v). detection_set demo_env m (v_frames v ! n) = [] \<longrightarrow>
            wr_frames (writers (snd (analyze demo_env (Some (demo_video [0, 25, 0, 1, 0])) demo_ready)) !
               length (writers demo_ready)) ! n = v_frames v ! n)"
    using t v by blast
  have c2: "\<exists>px m. cv_imdecode demo_env (up_content (demo_image [0, 1])) = Some px \<and>
         model (snd (analyze demo_env (Some (demo_image [0, 1])) demo_ready)) = Some m \<and>
         (detection_set demo_env m px = [] \<longrightarrow>
            ''01'' = b64encode demo_env (cv_jpg demo_env px))"
    using t i by blast
  show ?thesis by (intro conjI f i d1 fl ar v d2 wf c3 c2)
qed

end
